theory Spec2Isabelle
  imports Main "HOL-Library.AList"
begin

section \<open>Renderer storage and the tool catalog\<close>

text \<open>
  The renderer script keeps its persistent state in \<^verbatim>\<open>localStorage\<close>. Every item is a
  string; the single item \<^verbatim>\<open>installedTools\<close> holds \<^verbatim>\<open>JSON.stringify\<close> of
  an object from tool names to install records and is read back with \<^verbatim>\<open>JSON.parse\<close>,
  so it is kept here in parsed form. A property value of such an object is either
  \<^verbatim>\<open>true\<close> or \<^verbatim>\<open>{status: 'installed', timestamp}\<close>; both are truthy.
\<close>

datatype inst_val = JTrue | InstalledAt string

type_synonym installed_obj = "(string \<times> inst_val) list"

record local_storage =
  ls_items :: "string \<rightharpoonup> string"
  ls_installedTools :: "installed_obj option"

definition getItem :: "local_storage \<Rightarrow> string \<Rightarrow> string option" where
  "getItem ls k = ls_items ls k"

definition setItem :: "string \<Rightarrow> string \<Rightarrow> local_storage \<Rightarrow> local_storage" where
  "setItem k v ls = ls\<lparr>ls_items := (ls_items ls)(k \<mapsto> v)\<rparr>"

definition removeItem :: "string \<Rightarrow> local_storage \<Rightarrow> local_storage" where
  "removeItem k ls = ls\<lparr>ls_items := (ls_items ls)(k := None)\<rparr>"

text \<open>
  \<^verbatim>\<open>TOOLS_DATABASE\<close>: the catalog, in declaration order. Of each entry the modelled code
  reads \<^verbatim>\<open>name\<close> and \<^verbatim>\<open>id\<close>; no entry of the source declares an \<^verbatim>\<open>id\<close>
  property, so reading it gives \<^verbatim>\<open>undefined\<close> (here \<open>None\<close>).
\<close>

record tool_info =
  t_name :: string
  t_id :: "string option"

definition TOOLS_DATABASE :: "(string \<times> tool_info) list" where
  "TOOLS_DATABASE =
    [(''windows-defender'', \<lparr>t_name = ''Windows Defender'', t_id = None\<rparr>),
     (''malwarebytes'', \<lparr>t_name = ''Malwarebytes'', t_id = None\<rparr>),
     (''kaspersky'', \<lparr>t_name = ''Kaspersky Endpoint Security'', t_id = None\<rparr>),
     (''wireshark'', \<lparr>t_name = ''Wireshark'', t_id = None\<rparr>),
     (''suricata'', \<lparr>t_name = ''Suricata'', t_id = None\<rparr>),
     (''zeek'', \<lparr>t_name = ''Zeek (Bro)'', t_id = None\<rparr>),
     (''ghidra'', \<lparr>t_name = ''Ghidra'', t_id = None\<rparr>),
     (''ida-pro'', \<lparr>t_name = ''IDA Pro'', t_id = None\<rparr>),
     (''volatility'', \<lparr>t_name = ''Volatility'', t_id = None\<rparr>),
     (''splunk'', \<lparr>t_name = ''Splunk Enterprise'', t_id = None\<rparr>),
     (''elastic-stack'', \<lparr>t_name = ''Elastic Stack (ELK)'', t_id = None\<rparr>),
     (''nessus'', \<lparr>t_name = ''Nessus Professional'', t_id = None\<rparr>),
     (''openvas'', \<lparr>t_name = ''OpenVAS'', t_id = None\<rparr>),
     (''cis-cat'', \<lparr>t_name = ''CIS-CAT Pro'', t_id = None\<rparr>),
     (''osquery'', \<lparr>t_name = ''OSQuery'', t_id = None\<rparr>),
     (''gvm'', \<lparr>t_name = ''GVM'', t_id = None\<rparr>),
     (''fail2ban'', \<lparr>t_name = ''Fail2ban'', t_id = None\<rparr>),
     (''lynis'', \<lparr>t_name = ''Lynis'', t_id = None\<rparr>),
     (''aide'', \<lparr>t_name = ''AIDE'', t_id = None\<rparr>),
     (''chkrootkit'', \<lparr>t_name = ''Chkrootkit'', t_id = None\<rparr>),
     (''rkhunter'', \<lparr>t_name = ''Rkhunter'', t_id = None\<rparr>),
     (''clamav'', \<lparr>t_name = ''ClamAV'', t_id = None\<rparr>),
     (''tiger'', \<lparr>t_name = ''TIGER'', t_id = None\<rparr>),
     (''tripwire'', \<lparr>t_name = ''Tripwire'', t_id = None\<rparr>),
     (''apparmor'', \<lparr>t_name = ''AppArmor'', t_id = None\<rparr>),
     (''selinux'', \<lparr>t_name = ''SELinux'', t_id = None\<rparr>),
     (''ufw'', \<lparr>t_name = ''UFW'', t_id = None\<rparr>),
     (''auditd'', \<lparr>t_name = ''Auditd'', t_id = None\<rparr>)]"

text \<open>\<^verbatim>\<open>TOOL_ROLES\<close>: role key to catalog keys; \<^verbatim>\<open>TOOL_ROLES[r] || []\<close> is \<open>role_tools r\<close>.\<close>

definition TOOL_ROLES :: "(string \<times> string list) list" where
  "TOOL_ROLES =
    [(''network_scan'', [''wireshark'', ''suricata'', ''zeek'']),
     (''vuln_scan'', [''nessus'', ''openvas'', ''gvm'']),
     (''malware_scan'', [''clamav'', ''rkhunter'', ''chkrootkit'', ''malwarebytes'',
                         ''windows-defender'', ''kaspersky'']),
     (''integrity_scan'', [''aide'', ''tripwire'']),
     (''memory_scan'', [''volatility'']),
     (''compliance_scan'', [''lynis'', ''cis-cat'', ''osquery'', ''auditd'', ''tiger'']),
     (''siem'', [''splunk'', ''elastic-stack'']),
     (''firewall'', [''ufw'', ''apparmor'', ''selinux'']),
     (''ips'', [''suricata'', ''fail2ban'']),
     (''av_remediate'', [''clamav'', ''malwarebytes'', ''windows-defender'', ''kaspersky'',
                         ''rkhunter'', ''chkrootkit''])]"

definition role_tools :: "string \<Rightarrow> string list" where
  "role_tools r = (case map_of TOOL_ROLES r of None \<Rightarrow> [] | Some ks \<Rightarrow> ks)"

subsection \<open>The two declarations of getInstalledTools\<close>

text \<open>
  The renderer script declares \<^verbatim>\<open>function getInstalledTools()\<close> twice. The first
  declaration parses the \<^verbatim>\<open>installedTools\<close> item (or gives the empty object).
\<close>

definition getInstalledTools_first :: "local_storage \<Rightarrow> installed_obj" where
  "getInstalledTools_first ls =
     (case ls_installedTools ls of None \<Rightarrow> [] | Some obj \<Rightarrow> obj)"

text \<open>
  The second declaration walks the catalog and tests the item named by the template
  \<^verbatim>\<open>`tool_${tool.id}_installed`\<close>; an undefined value is rendered as
  \<^verbatim>\<open>undefined\<close> by the template.
\<close>

definition installed_flag_key :: "tool_info \<Rightarrow> string" where
  "installed_flag_key tool =
     ''tool_'' @ (case t_id tool of None \<Rightarrow> ''undefined'' | Some i \<Rightarrow> i) @ ''_installed''"

definition getInstalledTools_second :: "local_storage \<Rightarrow> installed_obj" where
  "getInstalledTools_second ls =
     foldl (\<lambda>installedTools (toolKey, tool).
              if getItem ls (installed_flag_key tool) = Some ''true''
              then AList.update (t_name tool) JTrue installedTools
              else installedTools)
           [] TOOLS_DATABASE"

text \<open>
  Function declarations of a script are bound before it runs, each later declaration of
  a name replacing the earlier one; every call of \<^verbatim>\<open>getInstalledTools()\<close> in the
  script therefore reaches the last declaration.
\<close>

definition getInstalledTools_declarations :: "(local_storage \<Rightarrow> installed_obj) list" where
  "getInstalledTools_declarations = [getInstalledTools_first, getInstalledTools_second]"

definition getInstalledTools :: "local_storage \<Rightarrow> installed_obj" where
  "getInstalledTools = last getInstalledTools_declarations"

text \<open>
  \<^verbatim>\<open>setToolInstalled(toolName, isInstalled)\<close>; \<open>ts\<close> is the value of
  \<^verbatim>\<open>new Date().toISOString()\<close>.
\<close>

definition setToolInstalled :: "string \<Rightarrow> bool \<Rightarrow> string \<Rightarrow> local_storage \<Rightarrow> local_storage" where
  "setToolInstalled toolName isInstalled ts ls =
     (let installed = getInstalledTools ls;
          installed' = (if isInstalled then AList.update toolName (InstalledAt ts) installed
                        else AList.delete toolName installed)
      in ls\<lparr>ls_installedTools := Some installed'\<rparr>)"

text \<open>
  \<^verbatim>\<open>getToolsByRole(roleKeys)\<close>. The source filters \<^verbatim>\<open>Object.keys(TOOLS_DATABASE)\<close>
  and looks every key up again; the catalog's keys are distinct, so the model filters the
  entries themselves. The result entries are \<^verbatim>\<open>{ key: k, ...TOOLS_DATABASE[k] }\<close>.
\<close>

record tool_entry =
  te_key :: string
  te_name :: string

definition getToolsByRole :: "local_storage \<Rightarrow> string list \<Rightarrow> tool_entry list" where
  "getToolsByRole ls roleKeys =
     (let installed = getInstalledTools ls;
          installedKeys = filter (\<lambda>(key, t). map_of installed (t_name t) \<noteq> None) TOOLS_DATABASE;
          wanted = set (concat (map role_tools roleKeys))
      in map (\<lambda>(k, t). \<lparr>te_key = k, te_name = t_name t\<rparr>)
             (filter (\<lambda>(k, t). k \<in> wanted) installedKeys))"

section \<open>Timers\<close>

text \<open>
  Scan and defend register their work with \<^verbatim>\<open>setTimeout(callback, delay)\<close> during one
  synchronous pass and return; the event loop then runs the callbacks one at a time,
  earliest deadline first, callbacks of equal delay in registration order. A timer is
  its delay with the unit of work; \<open>fire_order\<close> is the order of execution and
  \<open>run_units\<close> lists the states the event loop passes through, which are the states any
  other code of the page can observe.
\<close>

type_synonym 'u timers = "(nat \<times> 'u) list"

definition fire_order :: "'u timers \<Rightarrow> 'u timers" where
  "fire_order ts = sort_key fst ts"

fun run_units :: "('s \<Rightarrow> 'u \<Rightarrow> 's) \<Rightarrow> 's \<Rightarrow> 'u list \<Rightarrow> 's list" where
  "run_units f s [] = [s]"
| "run_units f s (u # us) = s # run_units f (f s u) us"

section \<open>Scan engine\<close>

datatype level = LInfo | LSuccess | LWarning | LError | LCritical

text \<open>
  A finding object. \<open>f_flagged\<close> is the truthiness of its \<^verbatim>\<open>flagged\<close> property, which
  the scan loop reads; the object literal returned by \<^verbatim>\<open>_runToolScan\<close> has the
  properties \<^verbatim>\<open>phase, tool, key, level, message\<close> only.
\<close>

record finding =
  f_phase :: string
  f_tool :: string
  f_key :: string
  f_level :: level
  f_message :: string
  f_flagged :: bool

record scan_results =
  startedAt :: nat
  completedAt :: "nat option"
  findings :: "finding list"
  critical :: nat
  high :: nat
  medium :: nat
  low :: nat
  toolsRun :: nat

text \<open>
  The two early returns of the scan and the early return of defend show a notification,
  log a warning and return; they are named after the error they report.
\<close>

datatype scan_error = NoToolsInstalled | NoScannerCapability

datatype scan_unit = PhaseOpen string | Probe tool_entry string | Summary

definition scan_phases :: "local_storage \<Rightarrow> (string \<times> tool_entry list) list" where
  "scan_phases ls =
    [(''NETWORK ANALYSIS'', getToolsByRole ls [''network_scan'']),
     (''VULNERABILITY SCAN'', getToolsByRole ls [''vuln_scan'']),
     (''MALWARE & EDR'', getToolsByRole ls [''malware_scan'']),
     (''FILE INTEGRITY'', getToolsByRole ls [''integrity_scan'']),
     (''MEMORY FORENSICS'', getToolsByRole ls [''memory_scan'']),
     (''COMPLIANCE & AUDIT'', getToolsByRole ls [''compliance_scan'']),
     (''SIEM & LOG INGEST'', getToolsByRole ls [''siem''])]"

definition activePhases :: "local_storage \<Rightarrow> (string \<times> tool_entry list) list" where
  "activePhases ls = filter (\<lambda>(phaseName, tools). length tools > 0) (scan_phases ls)"

text \<open>The phase scheduler: the two nested \<^verbatim>\<open>forEach\<close> loops, threading \<^verbatim>\<open>globalDelay\<close>.\<close>

fun schedule_tools :: "string \<Rightarrow> tool_entry list \<Rightarrow> nat \<Rightarrow> scan_unit timers \<times> nat" where
  "schedule_tools phaseName [] globalDelay = ([], globalDelay)"
| "schedule_tools phaseName (tool # tools) globalDelay =
     (let (rest, d) = schedule_tools phaseName tools (globalDelay + 550)
      in ((globalDelay, Probe tool phaseName) # rest, d))"

fun schedule_phases :: "(string \<times> tool_entry list) list \<Rightarrow> nat \<Rightarrow> scan_unit timers \<times> nat" where
  "schedule_phases [] globalDelay = ([], globalDelay)"
| "schedule_phases ((phaseName, tools) # phases) globalDelay =
     (let (us, d) = schedule_tools phaseName tools (globalDelay + 300);
          (rest, d') = schedule_phases phases (d + 200)
      in ((globalDelay, PhaseOpen phaseName) # us @ rest, d'))"

text \<open>
  \<^verbatim>\<open>performComprehensiveScan()\<close>, its synchronous pass. It reads the storage and is given
  the Result Store \<^verbatim>\<open>window.KjerLastScanResults\<close>; it returns the store as it leaves it,
  and either the error of an early return or the fresh \<^verbatim>\<open>results\<close> object with the
  timers it registered. \<open>now\<close> is the clock at the call.
\<close>

definition performComprehensiveScan ::
  "nat \<Rightarrow> local_storage \<Rightarrow> scan_results option
     \<Rightarrow> scan_results option \<times> (scan_error + scan_results \<times> scan_unit timers)" where
  "performComprehensiveScan now ls store =
     (let installed = getInstalledTools ls in
      if length installed = 0 then (store, Inl NoToolsInstalled)
      else let active = activePhases ls in
      if length active = 0 then (store, Inl NoScannerCapability)
      else let results = \<lparr>startedAt = now, completedAt = None, findings = [],
                             critical = 0, high = 0, medium = 0, low = 0, toolsRun = 0\<rparr>;
               (units, globalDelay) = schedule_phases active 400
           in (None, Inr (results, units @ [(globalDelay + 400, Summary)])))"

text \<open>
  The callbacks. \<^verbatim>\<open>_runToolScan(tool, phase)\<close> simulates a tool with \<^verbatim>\<open>Math.random\<close>;
  it is the parameter \<open>probe\<close>, which is given the tool, the phase name and the state \<open>'r\<close>
  of the random source and returns the finding (or \<^verbatim>\<open>null\<close>) with the next state.
  The summary reads the clock again for \<^verbatim>\<open>completedAt\<close>; a timer of delay \<open>d\<close>
  registered at time \<open>now\<close> is taken to fire at \<open>now + d\<close>.
\<close>

record 'r scan_run =
  run_results :: scan_results
  run_store :: "scan_results option"
  run_rng :: 'r

definition record_finding :: "finding \<Rightarrow> scan_results \<Rightarrow> scan_results" where
  "record_finding finding results =
     (let results = results\<lparr>findings := findings results @ [finding]\<rparr> in
      if f_level finding = LCritical then results\<lparr>critical := critical results + 1\<rparr>
      else if f_level finding = LError then results\<lparr>high := high results + 1\<rparr>
      else if f_level finding = LWarning then results\<lparr>medium := medium results + 1\<rparr>
      else if f_level finding = LInfo \<and> f_flagged finding then results\<lparr>low := low results + 1\<rparr>
      else results)"

fun exec_scan_unit ::
  "(tool_entry \<Rightarrow> string \<Rightarrow> 'r \<Rightarrow> finding option \<times> 'r) \<Rightarrow> nat
     \<Rightarrow> 'r scan_run \<Rightarrow> nat \<times> scan_unit \<Rightarrow> 'r scan_run" where
  "exec_scan_unit probe now st (delay, PhaseOpen phaseName) = st"
| "exec_scan_unit probe now st (delay, Probe tool phaseName) =
     (let (finding, rng) = probe tool phaseName (run_rng st);
          results = (run_results st)\<lparr>toolsRun := toolsRun (run_results st) + 1\<rparr>;
          results = (case finding of None \<Rightarrow> results | Some f \<Rightarrow> record_finding f results)
      in st\<lparr>run_results := results, run_rng := rng\<rparr>)"
| "exec_scan_unit probe now st (delay, Summary) =
     (let results = (run_results st)\<lparr>completedAt := Some (now + delay)\<rparr>
      in st\<lparr>run_results := results, run_store := Some results\<rparr>)"

text \<open>
  A whole scan: the synchronous pass, then every timer. \<open>scan_states\<close> gives the state
  after the synchronous pass followed by the state after each unit; \<open>scan\<close> is the last
  of them.
\<close>

definition scan_states ::
  "(tool_entry \<Rightarrow> string \<Rightarrow> 'r \<Rightarrow> finding option \<times> 'r) \<Rightarrow> nat \<Rightarrow> 'r
     \<Rightarrow> local_storage \<Rightarrow> scan_results option \<Rightarrow> scan_error + 'r scan_run list" where
  "scan_states probe now rng ls store =
     (case performComprehensiveScan now ls store of
        (store', Inl e) \<Rightarrow> Inl e
      | (store', Inr (results, ts)) \<Rightarrow>
          Inr (run_units (exec_scan_unit probe now)
                 \<lparr>run_results = results, run_store = store', run_rng = rng\<rparr> (fire_order ts)))"

definition scan ::
  "(tool_entry \<Rightarrow> string \<Rightarrow> 'r \<Rightarrow> finding option \<times> 'r) \<Rightarrow> nat \<Rightarrow> 'r
     \<Rightarrow> local_storage \<Rightarrow> scan_results option \<Rightarrow> scan_error + 'r scan_run" where
  "scan probe now rng ls store =
     (case scan_states probe now rng ls store of Inl e \<Rightarrow> Inl e | Inr sts \<Rightarrow> Inr (last sts))"

text \<open>The tools a scan dispatches, in dispatch order.\<close>

definition dispatched :: "local_storage \<Rightarrow> tool_entry list" where
  "dispatched ls = concat (map snd (activePhases ls))"


text \<open>
  Notions used to state the properties of a scan: the units of a list of phases in
  scheduling order, the tool and phase of a probe unit, and the agreement of the four
  counters with the findings recorded.
\<close>

definition phase_units :: "(string \<times> tool_entry list) list \<Rightarrow> scan_unit list" where
  "phase_units phases =
     concat (map (\<lambda>(phaseName, tools). PhaseOpen phaseName # map (\<lambda>t. Probe t phaseName) tools)
               phases)"

fun unit_tool :: "scan_unit \<Rightarrow> (tool_entry \<times> string) option" where
  "unit_tool (PhaseOpen phaseName) = None"
| "unit_tool (Probe tool phaseName) = Some (tool, phaseName)"
| "unit_tool Summary = None"

definition counts_ok :: "scan_results \<Rightarrow> bool" where
  "counts_ok r =
     (critical r = length (filter (\<lambda>f. f_level f = LCritical) (findings r))
      \<and> high r = length (filter (\<lambda>f. f_level f = LError) (findings r))
      \<and> medium r = length (filter (\<lambda>f. f_level f = LWarning) (findings r))
      \<and> low r = length (filter (\<lambda>f. f_level f = LInfo \<and> f_flagged f) (findings r)))"

definition scan_findings ::
  "(tool_entry \<Rightarrow> string \<Rightarrow> 'r \<Rightarrow> finding option \<times> 'r) \<Rightarrow> nat \<Rightarrow> 'r
     \<Rightarrow> local_storage \<Rightarrow> scan_results option \<Rightarrow> scan_error + finding list" where
  "scan_findings probe now rng ls store =
     (case scan probe now rng ls store of
        Inl e \<Rightarrow> Inl e | Inr st \<Rightarrow> Inr (findings (run_results st)))"

section \<open>Defend engine\<close>

definition hasScanData :: "scan_results option \<Rightarrow> bool" where
  "hasScanData scanResults =
     (case scanResults of None \<Rightarrow> False | Some r \<Rightarrow> completedAt r \<noteq> None)"

definition defend_findings :: "scan_results option \<Rightarrow> finding list" where
  "defend_findings scanResults =
     (if hasScanData scanResults
      then (case scanResults of None \<Rightarrow> [] | Some r \<Rightarrow> findings r) else [])"

text \<open>The threat context: one \<^verbatim>\<open>findings.some(...)\<close> each.\<close>

definition hasNetworkThreat :: "finding list \<Rightarrow> bool" where
  "hasNetworkThreat fs =
     list_ex (\<lambda>f. f_key f \<in> set [''wireshark'', ''suricata'', ''zeek'']
                 \<and> f_level f \<in> set [LCritical, LError, LWarning]) fs"

definition hasMalware :: "finding list \<Rightarrow> bool" where
  "hasMalware fs =
     list_ex (\<lambda>f. f_key f \<in> set [''clamav'', ''rkhunter'', ''chkrootkit'', ''malwarebytes'',
                                    ''windows-defender'', ''kaspersky'']
                 \<and> f_level f \<in> set [LCritical, LError]) fs"

definition hasIntegrityViolation :: "finding list \<Rightarrow> bool" where
  "hasIntegrityViolation fs =
     list_ex (\<lambda>f. f_key f \<in> set [''aide'', ''tripwire'']
                 \<and> f_level f \<in> set [LCritical, LWarning]) fs"

definition hasComplianceGap :: "finding list \<Rightarrow> bool" where
  "hasComplianceGap fs =
     list_ex (\<lambda>f. f_key f \<in> set [''lynis'', ''cis-cat'', ''osquery'', ''auditd'', ''tiger'']
                 \<and> f_level f \<in> set [LCritical, LError, LWarning]) fs"

definition hasMemoryThreat :: "finding list \<Rightarrow> bool" where
  "hasMemoryThreat fs =
     list_ex (\<lambda>f. f_key f = ''volatility'' \<and> f_level f \<in> set [LCritical, LWarning]) fs"

definition hasVulns :: "finding list \<Rightarrow> bool" where
  "hasVulns fs =
     list_ex (\<lambda>f. f_key f \<in> set [''nessus'', ''openvas'', ''gvm'']
                 \<and> f_level f \<in> set [LCritical, LError, LWarning]) fs"

text \<open>
  The six phases, named after their section headers (PHASE 1 - NETWORK & PERIMETER,
  PHASE 2 - MALWARE CONTAINMENT, PHASE 3 - ACCESS CONTROL ENFORCEMENT, PHASE 4 - FILE
  INTEGRITY, PHASE 5 - AUDIT HARDENING, PHASE 6 - SIEM ALERT RULES).
\<close>

datatype defend_phase =
  Network_Perimeter | Malware_Containment | Access_Control | File_Integrity
  | Audit_Hardening | SIEM_Alert_Rules

datatype defend_unit = DSection defend_phase | Defender defend_phase tool_entry | DSummary

fun schedule_defenders ::
  "defend_phase \<Rightarrow> nat \<Rightarrow> tool_entry list \<Rightarrow> nat \<Rightarrow> defend_unit timers \<times> nat" where
  "schedule_defenders p step [] delay = ([], delay)"
| "schedule_defenders p step (tool # tools) delay =
     (let (rest, d) = schedule_defenders p step tools (delay + step)
      in ((delay, Defender p tool) # rest, d))"

text \<open>
  Each of the six blocks of the source has one shape: when the phase has tools and its
  trigger holds, register the section header, one timer per tool \<open>step\<close> apart, and
  advance \<^verbatim>\<open>delay\<close>; otherwise register nothing.
\<close>

definition defend_phase_block ::
  "defend_phase \<Rightarrow> nat \<Rightarrow> tool_entry list \<Rightarrow> bool \<Rightarrow> nat \<Rightarrow> defend_unit timers \<times> nat" where
  "defend_phase_block p step tools trigger delay =
     (if length tools > 0 \<and> trigger
      then (let (us, d) = schedule_defenders p step tools (delay + 300)
            in ((delay, DSection p) # us, d + 200))
      else ([], delay))"

text \<open>
  \<^verbatim>\<open>activateSmartDefense()\<close>, its synchronous pass: the error of the early return, or
  the timers registered. It reads the Result Store and does not write it.
\<close>

definition activateSmartDefense ::
  "local_storage \<Rightarrow> scan_results option \<Rightarrow> scan_error + defend_unit timers" where
  "activateSmartDefense ls store =
     (let installed = getInstalledTools ls in
      if length installed = 0 then Inl NoToolsInstalled
      else
        let scanResults = store;
            findings = defend_findings scanResults;
            broadMode = (\<not> hasScanData scanResults);
            delay = 400;
            networkDefenders = filter (\<lambda>t. te_key t \<in> set [''ufw'', ''fail2ban'', ''suricata''])
                                 (getToolsByRole ls [''firewall'', ''ips'']);
            (u1, delay) = defend_phase_block Network_Perimeter 500 networkDefenders
                            (broadMode \<or> hasNetworkThreat findings \<or> hasVulns findings) delay;
            avTools = getToolsByRole ls [''av_remediate''];
            (u2, delay) = defend_phase_block Malware_Containment 500 avTools
                            (broadMode \<or> hasMalware findings \<or> hasMemoryThreat findings) delay;
            macTools = filter (\<lambda>t. te_key t \<in> set [''apparmor'', ''selinux''])
                         (getToolsByRole ls [''firewall'']);
            (u3, delay) = defend_phase_block Access_Control 500 macTools
                            (broadMode \<or> hasComplianceGap findings \<or> hasMalware findings) delay;
            integrityTools = getToolsByRole ls [''integrity_scan''];
            (u4, delay) = defend_phase_block File_Integrity 450 integrityTools
                            (broadMode \<or> hasIntegrityViolation findings) delay;
            complianceDefenders = filter (\<lambda>t. te_key t \<in> set [''lynis'', ''auditd''])
                                    (getToolsByRole ls [''compliance_scan'']);
            (u5, delay) = defend_phase_block Audit_Hardening 500 complianceDefenders
                            (broadMode \<or> hasComplianceGap findings) delay;
            siemTools = getToolsByRole ls [''siem''];
            (u6, delay) = defend_phase_block SIEM_Alert_Rules 450 siemTools
                            (broadMode \<or> length findings > 0) delay
        in Inr (u1 @ u2 @ u3 @ u4 @ u5 @ u6 @ [(delay + 400, DSummary)]))"

text \<open>
  The callbacks. Every tool callback adds the tool's name to \<^verbatim>\<open>toolsEngaged\<close>; it
  counts an action when its \<^verbatim>\<open>switch (t.key)\<close> has a case for the tool (phases 4 and 6
  have no switch and always count). The text of the logged line is not modelled.
\<close>

fun counts_action :: "defend_phase \<Rightarrow> string \<Rightarrow> bool" where
  "counts_action Network_Perimeter k = (k \<in> set [''ufw'', ''fail2ban'', ''suricata''])"
| "counts_action Malware_Containment k =
     (k \<in> set [''clamav'', ''rkhunter'', ''chkrootkit'', ''malwarebytes'',
               ''windows-defender'', ''kaspersky''])"
| "counts_action Access_Control k = (k \<in> set [''apparmor'', ''selinux''])"
| "counts_action File_Integrity k = True"
| "counts_action Audit_Hardening k = (k \<in> set [''lynis'', ''auditd''])"
| "counts_action SIEM_Alert_Rules k = True"

definition compute_posture :: "nat \<Rightarrow> scan_results option \<Rightarrow> string" where
  "compute_posture actionsTotal scanResults =
     (if actionsTotal = 0 then ''NO DEFENSIVE TOOLS INSTALLED''
      else if length (defend_findings scanResults) = 0 then ''HARDENED (preventive)''
      else if hasScanData scanResults
              \<and> (case scanResults of None \<Rightarrow> False | Some r \<Rightarrow> critical r > 0)
           then ''INCIDENT RESPONSE ACTIVE''
      else ''HARDENED'')"

record defend_run =
  actionsTotal :: nat
  toolsEngaged :: "string list"
  posture :: "string option"

fun exec_defend_unit :: "scan_results option \<Rightarrow> defend_run \<Rightarrow> nat \<times> defend_unit \<Rightarrow> defend_run" where
  "exec_defend_unit scanResults st (delay, DSection p) = st"
| "exec_defend_unit scanResults st (delay, Defender p t) =
     st\<lparr>toolsEngaged := List.insert (te_name t) (toolsEngaged st),
        actionsTotal := (if counts_action p (te_key t) then actionsTotal st + 1
                         else actionsTotal st)\<rparr>"
| "exec_defend_unit scanResults st (delay, DSummary) =
     st\<lparr>posture := Some (compute_posture (actionsTotal st) scanResults)\<rparr>"

definition defend :: "local_storage \<Rightarrow> scan_results option \<Rightarrow> scan_error + defend_run" where
  "defend ls store =
     (case activateSmartDefense ls store of
        Inl e \<Rightarrow> Inl e
      | Inr ts \<Rightarrow> Inr (foldl (exec_defend_unit store)
                          \<lparr>actionsTotal = 0, toolsEngaged = [], posture = None\<rparr>
                          (fire_order ts)))"

text \<open>The phases a defend run engages: the section headers it registers, in order.\<close>

fun section_of :: "nat \<times> defend_unit \<Rightarrow> defend_phase option" where
  "section_of (delay, DSection p) = Some p"
| "section_of (delay, Defender p t) = None"
| "section_of (delay, DSummary) = None"

definition engaged_phases :: "local_storage \<Rightarrow> scan_results option \<Rightarrow> defend_phase list" where
  "engaged_phases ls store =
     (case activateSmartDefense ls store of
        Inl e \<Rightarrow> []
      | Inr ts \<Rightarrow> List.map_filter section_of ts)"

section \<open>Tool installation and the initialization flag\<close>

text \<open>
  \<^verbatim>\<open>installTool(toolName)\<close> toggles: it uninstalls a tool it finds installed and
  installs one it does not. \<open>backend_success\<close> is \<^verbatim>\<open>result.success\<close> of the answer of
  the external executor (\<^verbatim>\<open>BackendAPI.uninstallTool\<close> or \<^verbatim>\<open>BackendAPI.installTool\<close>).
\<close>

definition installTool :: "string \<Rightarrow> bool \<Rightarrow> string \<Rightarrow> local_storage \<Rightarrow> local_storage" where
  "installTool toolName backend_success ts ls =
     (let installed = getInstalledTools ls;
          isInstalled = (toolName \<in> set (map fst installed))
      in if isInstalled
         then (if backend_success then setToolInstalled toolName False ts ls else ls)
         else (if backend_success then setToolInstalled toolName True ts ls else ls))"

definition isInitialized :: "local_storage \<Rightarrow> bool" where
  "isInitialized ls = (getItem ls ''kterInitialized'' = Some ''true'')"

text \<open>
  \<^verbatim>\<open>createToolCard(tool, isInitialized)\<close> renders the install button of a tool card
  disabled by \<^verbatim>\<open>tool.isIncompatible || !isInitialized\<close>.
\<close>

definition isButtonDisabled :: "bool \<Rightarrow> bool \<Rightarrow> bool" where
  "isButtonDisabled isIncompatible initialized = (isIncompatible \<or> \<not> initialized)"

section \<open>Activation and initialization\<close>

definition truthy :: "string option \<Rightarrow> bool" where
  "truthy v = (case v of None \<Rightarrow> False | Some s \<Rightarrow> s \<noteq> [])"

definition js_or :: "string option \<Rightarrow> string option \<Rightarrow> string option" where
  "js_or a b = (if truthy a then a else b)"

definition or_default :: "string option \<Rightarrow> string \<Rightarrow> string" where
  "or_default a d = (case a of None \<Rightarrow> d | Some s \<Rightarrow> if s = [] then d else s)"







text \<open>
  \<^verbatim>\<open>activateKjer()\<close>. \<open>licenseKey\<close> is the input after \<^verbatim>\<open>trim().toUpperCase()\<close>;
  \<open>result\<close> is the answer of the license authority \<^verbatim>\<open>BackendAPI.activateLicense\<close>, asked
  only for a key of the right format. The function returns with the storage and the
  timer it registered; the callback of that timer closes the modal and calls
  \<^verbatim>\<open>initializeKjer()\<close>. The copy of the key written to disk by a shell command is not
  modelled.
\<close>

record activation_result =
  ar_success :: bool
  ar_license_version :: "string option"
  ar_version :: "string option"
  ar_message :: string







section \<open>The read-install-state handler of the main process\<close>

text \<open>
  The handler looks at two files of \<^verbatim>\<open>~/.kjer\<close>: the flag file \<^verbatim>\<open>initialized\<close>
  (\<^verbatim>\<open>fs.existsSync\<close>) and \<^verbatim>\<open>install_state.json\<close>, which is missing
  (\<^verbatim>\<open>readFileSync\<close> raises), not JSON (\<^verbatim>\<open>JSON.parse\<close> raises) or an object with its
  properties (kept as strings; the handler only copies them). Both raises happen inside
  the handler's \<^verbatim>\<open>try\<close>, whose \<^verbatim>\<open>catch\<close> answers with the error's message.
  The answer's state is the file's properties with \<^verbatim>\<open>initialized\<close> set from the flag
  file.
\<close>

datatype state_file = Missing | Unparsable | Parsed "(string \<times> string) list"

record kjer_dir =
  initFlag :: bool
  stateFile :: state_file

datatype read_error = ENOENT | SyntaxError

record install_state =
  is_fields :: "(string \<times> string) list"
  is_initialized :: bool

record read_reply =
  rr_success :: bool
  rr_state :: "install_state option"
  rr_error :: "read_error option"

definition read_install_state :: "kjer_dir \<Rightarrow> read_reply" where
  "read_install_state dir =
     (let initialized = initFlag dir in
      case stateFile dir of
        Parsed props \<Rightarrow>
          \<lparr>rr_success = True,
           rr_state = Some \<lparr>is_fields = AList.delete ''initialized'' props,
                            is_initialized = initialized\<rparr>,
           rr_error = None\<rparr>
      | Missing \<Rightarrow>
          \<lparr>rr_success = initialized,
           rr_state = (if initialized then Some \<lparr>is_fields = [], is_initialized = initialized\<rparr>
                       else None),
           rr_error = Some ENOENT\<rparr>
      | Unparsable \<Rightarrow>
          \<lparr>rr_success = initialized,
           rr_state = (if initialized then Some \<lparr>is_fields = [], is_initialized = initialized\<rparr>
                       else None),
           rr_error = Some SyntaxError\<rparr>)"

text \<open>What a caller reads as \<^verbatim>\<open>result.state?.initialized === true\<close>.\<close>

definition reply_initialized :: "read_reply \<Rightarrow> bool" where
  "reply_initialized r = (case rr_state r of None \<Rightarrow> False | Some s \<Rightarrow> is_initialized s)"

text \<open>
  The shell command \<^verbatim>\<open>mkdir -p ~/.kjer && touch ~/.kjer/initialized\<close> that
  \<^verbatim>\<open>initializeKjer()\<close> issues, when it succeeds.
\<close>

definition touch_initialized :: "kjer_dir \<Rightarrow> kjer_dir" where
  "touch_initialized dir = dir\<lparr>initFlag := True\<rparr>"


section \<open>Example inputs\<close>

text \<open>
  A fresh storage, and a storage in which the item every catalog tool is looked up under
  is \<^verbatim>\<open>'true'\<close>. A probe that reports one critical finding for ClamAV and nothing
  for any other tool, and the result of a scan with it, started at time 0.
\<close>

definition storage_fresh :: local_storage where
  "storage_fresh = \<lparr>ls_items = Map.empty, ls_installedTools = None\<rparr>"

definition storage_all_installed :: local_storage where
  "storage_all_installed =
     \<lparr>ls_items = [''tool_undefined_installed'' \<mapsto> ''true''], ls_installedTools = None\<rparr>"

definition clamav_finding :: finding where
  "clamav_finding =
     \<lparr>f_phase = ''MALWARE & EDR'', f_tool = ''ClamAV'', f_key = ''clamav'',
      f_level = LCritical, f_message = ''1 threat'', f_flagged = False\<rparr>"

definition clamav_probe :: "tool_entry \<Rightarrow> string \<Rightarrow> unit \<Rightarrow> finding option \<times> unit" where
  "clamav_probe tool phaseName r =
     (if te_key tool = ''clamav''
      then Some \<lparr>f_phase = phaseName, f_tool = te_name tool, f_key = te_key tool,
                 f_level = LCritical, f_message = ''1 threat'', f_flagged = False\<rparr>
      else None, r)"

definition clamav_scan_result :: scan_results where
  "clamav_scan_result =
     \<lparr>startedAt = 0, completedAt = Some 16400, findings = [clamav_finding],
      critical = 1, high = 0, medium = 0, low = 0, toolsRun = 22\<rparr>"

text \<open>
  The result of a scan in which only Volatility reported, a warning (the line its probe
  logs for two or more anomalous processes).
\<close>

definition volatility_scan_result :: scan_results where
  "volatility_scan_result =
     \<lparr>startedAt = 0, completedAt = Some 16400,
      findings = [\<lparr>f_phase = ''MEMORY FORENSICS'', f_tool = ''Volatility'',
                   f_key = ''volatility'', f_level = LWarning,
                   f_message = ''2 anomalous process(es) in memory'', f_flagged = False\<rparr>],
      critical = 0, high = 0, medium = 1, low = 0, toolsRun = 22\<rparr>"




definition dir_before_install :: kjer_dir where
  "dir_before_install = \<lparr>initFlag = False, stateFile = Missing\<rparr>"

section \<open>Notions for the proofs\<close>

text \<open>Timers in order of delay, all with delays from \<open>d\<close> up to but excluding \<open>d'\<close>.\<close>

definition within :: "nat \<Rightarrow> nat \<Rightarrow> 'u timers \<Rightarrow> bool" where
  "within d d' ts = (sorted (map fst ts) \<and> list_all (\<lambda>u. d \<le> fst u \<and> fst u < d') ts)"

text \<open>Whether an activation is taken for a version upgrade (\<^verbatim>\<open>isUpgrade\<close>).\<close>

definition isUpgrade :: "activation_result \<Rightarrow> local_storage \<Rightarrow> bool" where
  "isUpgrade result ls =
     (let newVersion = js_or (ar_license_version result) (ar_version result)
      in truthy newVersion
         \<and> newVersion \<noteq> Some (or_default (getItem ls ''kterVersion'') ''1.0.0'')
         \<and> isInitialized ls)"

text \<open>The units of a defend run that count an action.\<close>

fun counting_unit :: "nat \<times> defend_unit \<Rightarrow> bool" where
  "counting_unit (delay, DSection p) = False"
| "counting_unit (delay, Defender p t) = counts_action p (te_key t)"
| "counting_unit (delay, DSummary) = False"

section \<open>The installed-set reader\<close>


lemma getInstalledTools_is_second: "getInstalledTools = getInstalledTools_second"
  by (simp add: getInstalledTools_def getInstalledTools_declarations_def)

lemma getInstalledTools_none:
  "getItem ls ''tool_undefined_installed'' \<noteq> Some ''true'' \<Longrightarrow> getInstalledTools ls = []"
  by (simp add: getInstalledTools_is_second getInstalledTools_second_def TOOLS_DATABASE_def
      installed_flag_key_def)

lemma getInstalledTools_all:
  "getItem ls ''tool_undefined_installed'' = Some ''true'' \<Longrightarrow>
   getInstalledTools ls = map (\<lambda>(k, t). (t_name t, JTrue)) TOOLS_DATABASE"
  by (simp add: getInstalledTools_is_second getInstalledTools_second_def TOOLS_DATABASE_def
      installed_flag_key_def)

lemma installed_flag_key_catalog:
  "map (\<lambda>(k, t). installed_flag_key t) TOOLS_DATABASE =
   replicate (length TOOLS_DATABASE) ''tool_undefined_installed''"
  by (simp add: TOOLS_DATABASE_def installed_flag_key_def)

lemma getItem_setToolInstalled [simp]: "getItem (setToolInstalled n b ts ls) k = getItem ls k"
  by (simp add: setToolInstalled_def getItem_def Let_def)

lemma getInstalledTools_cong:
  "getItem ls' ''tool_undefined_installed'' = getItem ls ''tool_undefined_installed'' \<Longrightarrow>
   getInstalledTools ls' = getInstalledTools ls"
  by (cases "getItem ls ''tool_undefined_installed'' = Some ''true''")
     (simp_all add: getInstalledTools_none getInstalledTools_all)

lemma getInstalledTools_setToolInstalled:
  "getInstalledTools (setToolInstalled n b ts ls) = getInstalledTools ls"
  by (rule getInstalledTools_cong) simp

lemma getToolsByRole_cong:
  "getInstalledTools ls' = getInstalledTools ls \<Longrightarrow> getToolsByRole ls' rs = getToolsByRole ls rs"
  by (simp add: getToolsByRole_def)

lemma activePhases_cong:
  assumes "getInstalledTools ls' = getInstalledTools ls"
  shows "activePhases ls' = activePhases ls"
  by (simp add: activePhases_def scan_phases_def getToolsByRole_cong [OF assms])

lemma performComprehensiveScan_cong:
  assumes "getInstalledTools ls' = getInstalledTools ls"
  shows "performComprehensiveScan now ls' store = performComprehensiveScan now ls store"
  by (simp add: performComprehensiveScan_def activePhases_cong [OF assms] assms)

lemma activateSmartDefense_cong:
  assumes "getInstalledTools ls' = getInstalledTools ls"
  shows "activateSmartDefense ls' store = activateSmartDefense ls store"
  by (simp add: activateSmartDefense_def getToolsByRole_cong [OF assms] assms)


lemma installed_iff_flag:
  "map (\<lambda>(k, t). t_name t \<in> set (map fst (getInstalledTools ls))) TOOLS_DATABASE =
   map (\<lambda>(k, t). getItem ls (installed_flag_key t) = Some ''true'') TOOLS_DATABASE"
proof (cases "getItem ls ''tool_undefined_installed'' = Some ''true''")
  case True
  then show ?thesis
    by (simp add: getInstalledTools_all) (simp add: TOOLS_DATABASE_def installed_flag_key_def)
next
  case False
  then show ?thesis
    by (simp add: getInstalledTools_none) (simp add: TOOLS_DATABASE_def installed_flag_key_def)
qed

text \<open>
  Claim C10. The later declaration of \<^verbatim>\<open>getInstalledTools\<close> is the one in effect. It
  reports a catalog tool installed exactly when the item named
  \<^verbatim>\<open>'tool_' + tool.id + '_installed'\<close> is \<^verbatim>\<open>'true'\<close>; no catalog entry has an
  \<^verbatim>\<open>id\<close>, so that item is \<^verbatim>\<open>tool_undefined_installed\<close> for every tool and the
  tools are reported installed all together or not at all. \<^verbatim>\<open>setToolInstalled\<close>
  writes the \<^verbatim>\<open>installedTools\<close> item and no other, and neither the reader nor scan
  nor defend sees the difference.
\<close>

theorem getInstalledTools_second_in_effect:
  "getInstalledTools = getInstalledTools_second
   \<and> map (\<lambda>(k, t). installed_flag_key t) TOOLS_DATABASE =
       replicate (length TOOLS_DATABASE) ''tool_undefined_installed''
   \<and> map (\<lambda>(k, t). t_name t \<in> set (map fst (getInstalledTools ls))) TOOLS_DATABASE =
       map (\<lambda>(k, t). getItem ls (installed_flag_key t) = Some ''true'') TOOLS_DATABASE
   \<and> (getInstalledTools ls = []
        \<or> getInstalledTools ls = map (\<lambda>(k, t). (t_name t, JTrue)) TOOLS_DATABASE)
   \<and> ls_installedTools (setToolInstalled n b ts ls) \<noteq> None
   \<and> ls_items (setToolInstalled n b ts ls) = ls_items ls
   \<and> getInstalledTools (setToolInstalled n b ts ls) = getInstalledTools ls
   \<and> performComprehensiveScan now (setToolInstalled n b ts ls) store =
       performComprehensiveScan now ls store
   \<and> activateSmartDefense (setToolInstalled n b ts ls) store = activateSmartDefense ls store"
proof -
  have uniform: "getInstalledTools ls = []
        \<or> getInstalledTools ls = map (\<lambda>(k, t). (t_name t, JTrue)) TOOLS_DATABASE"
    by (cases "getItem ls ''tool_undefined_installed'' = Some ''true''")
       (simp_all add: getInstalledTools_none getInstalledTools_all)
  have written: "ls_installedTools (setToolInstalled n b ts ls) \<noteq> None"
    "ls_items (setToolInstalled n b ts ls) = ls_items ls"
    by (simp_all add: setToolInstalled_def Let_def)
  note same = getInstalledTools_setToolInstalled [of n b ts ls]
  show ?thesis
    using uniform written getInstalledTools_is_second installed_flag_key_catalog
      installed_iff_flag [of ls] same
      performComprehensiveScan_cong [OF same, of now store]
      activateSmartDefense_cong [OF same, of store]
    by blast
qed


section \<open>Timers fire in registration order\<close>

lemma run_units_nonempty [simp]: "run_units f s us \<noteq> []"
  by (cases us) simp_all

lemma run_units_last: "last (run_units f s us) = foldl f s us"
  by (induction us arbitrary: s) simp_all


lemma schedule_tools_units:
  "map snd (fst (schedule_tools ph ts d)) = map (\<lambda>t. Probe t ph) ts"
  by (induction ts arbitrary: d) (simp_all add: case_prod_beta)

lemma schedule_tools_bounds:
  "schedule_tools ph ts d = (us, d') \<Longrightarrow>
   d \<le> d' \<and> sorted (map fst us) \<and> (\<forall>u \<in> set us. d \<le> fst u \<and> fst u < d')"
proof (induction ts arbitrary: d us d')
  case Nil
  then show ?case by simp
next
  case (Cons t ts)
  obtain rest e where r: "schedule_tools ph ts (d + 550) = (rest, e)"
    by (cases "schedule_tools ph ts (d + 550)")
  note ih = Cons.IH [OF r]
  have us: "us = (d, Probe t ph) # rest" and d': "d' = e"
    using Cons.prems r by simp_all
  have "\<forall>x \<in> set rest. d \<le> fst x \<and> fst x < e"
    using ih by fastforce
  moreover have "d < e" using ih by simp
  ultimately show ?case
    using ih unfolding us d' by auto
qed

lemma schedule_phases_units:
  "map snd (fst (schedule_phases ps d)) = phase_units ps"
proof (induction ps arbitrary: d)
  case Nil
  then show ?case by (simp add: phase_units_def)
next
  case (Cons p ps)
  obtain ph tools where p: "p = (ph, tools)" by (cases p)
  obtain us e where u: "schedule_tools ph tools (d + 300) = (us, e)"
    by (cases "schedule_tools ph tools (d + 300)")
  obtain rest e' where r: "schedule_phases ps (e + 200) = (rest, e')"
    by (cases "schedule_phases ps (e + 200)")
  have "map snd us = map (\<lambda>t. Probe t ph) tools"
    using schedule_tools_units [of ph tools "d + 300"] u by simp
  moreover have "map snd rest = phase_units ps"
    using Cons.IH [of "e + 200"] r by simp
  ultimately show ?case
    using p u r by (simp add: phase_units_def)
qed

lemma schedule_phases_bounds:
  "schedule_phases ps d = (us, d') \<Longrightarrow>
   d \<le> d' \<and> sorted (map fst us) \<and> (\<forall>u \<in> set us. d \<le> fst u \<and> fst u < d')"
proof (induction ps arbitrary: d us d')
  case Nil
  then show ?case by simp
next
  case (Cons p ps)
  obtain ph tools where p: "p = (ph, tools)" by (cases p)
  obtain ts e where u: "schedule_tools ph tools (d + 300) = (ts, e)"
    by (cases "schedule_tools ph tools (d + 300)")
  obtain rest e' where r: "schedule_phases ps (e + 200) = (rest, e')"
    by (cases "schedule_phases ps (e + 200)")
  note bt = schedule_tools_bounds [OF u]
  note bp = Cons.IH [OF r]
  have us: "us = (d, PhaseOpen ph) # ts @ rest" and d': "d' = e'"
    using Cons.prems p u r by simp_all
  have "sorted (map fst (ts @ rest))"
    using bt bp by (fastforce simp: sorted_append)
  moreover have "\<forall>x \<in> set (ts @ rest). d \<le> fst x \<and> fst x < e'"
    using bt bp by fastforce
  ultimately show ?case
    using bt bp unfolding us d' by auto
qed

lemma scan_timers_fire_in_order:
  assumes "schedule_phases ps d = (us, d')"
  shows "fire_order (us @ [(d' + 400, Summary)]) = us @ [(d' + 400, Summary)]"
proof -
  from schedule_phases_bounds [OF assms]
  have "sorted (map fst (us @ [(d' + 400, Summary)]))"
    by (fastforce simp: sorted_append)
  then show ?thesis
    unfolding fire_order_def by (rule sort_key_id_if_sorted)
qed

section \<open>Executing scan units\<close>

lemma record_finding_frame [simp]:
  "toolsRun (record_finding f r) = toolsRun r"
  "findings (record_finding f r) = findings r @ [f]"
  "completedAt (record_finding f r) = completedAt r"
  "startedAt (record_finding f r) = startedAt r"
  by (simp_all add: record_finding_def Let_def)

lemma record_finding_counts_ok:
  "counts_ok r \<Longrightarrow> counts_ok (record_finding f r)"
  by (cases "f_level f") (simp_all add: counts_ok_def record_finding_def Let_def)

lemma counts_ok_toolsRun_update [simp]:
  "counts_ok (r\<lparr>toolsRun := n\<rparr>) = counts_ok r"
  "counts_ok (r\<lparr>completedAt := c\<rparr>) = counts_ok r"
  by (simp_all add: counts_ok_def)

lemma exec_store:
  "u \<noteq> Summary \<Longrightarrow> run_store (exec_scan_unit probe now st (d, u)) = run_store st"
  by (cases u) (simp_all add: case_prod_beta Let_def)

lemma exec_completedAt:
  "u \<noteq> Summary \<Longrightarrow>
   completedAt (run_results (exec_scan_unit probe now st (d, u))) = completedAt (run_results st)"
  by (cases u) (simp_all add: case_prod_beta Let_def split: option.splits)

lemma exec_toolsRun:
  "toolsRun (run_results (exec_scan_unit probe now st (d, u))) =
   toolsRun (run_results st) + (case unit_tool u of None \<Rightarrow> 0 | Some x \<Rightarrow> 1)"
  by (cases u) (simp_all add: case_prod_beta Let_def split: option.splits)

lemma exec_counts_ok:
  "counts_ok (run_results st) \<Longrightarrow> counts_ok (run_results (exec_scan_unit probe now st (d, u)))"
  by (cases u) (simp_all add: case_prod_beta Let_def record_finding_counts_ok split: option.splits)

lemma exec_findings:
  assumes "\<forall>t ph r. fst (probe t ph r) = f t ph"
  shows "findings (run_results (exec_scan_unit probe now st (d, u))) =
         findings (run_results st) @
           (case unit_tool u of None \<Rightarrow> []
            | Some (t, ph) \<Rightarrow> (case f t ph of None \<Rightarrow> [] | Some x \<Rightarrow> [x]))"
proof (cases u)
  case (Probe t ph)
  have "fst (probe t ph (run_rng st)) = f t ph" using assms by simp
  then show ?thesis
    using Probe by (simp add: case_prod_beta Let_def split: option.splits)
qed (simp_all add: Let_def)

lemma foldl_exec_store:
  "Summary \<notin> snd ` set ts \<Longrightarrow>
   run_store (foldl (exec_scan_unit probe now) st ts) = run_store st"
proof (induction ts arbitrary: st)
  case Nil
  then show ?case by simp
next
  case (Cons x ts)
  obtain d u where x: "x = (d, u)" by (cases x)
  with Cons.prems have "u \<noteq> Summary" by force
  with Cons x show ?case by (simp add: exec_store)
qed


lemma foldl_exec_completedAt:
  "Summary \<notin> snd ` set ts \<Longrightarrow>
   completedAt (run_results (foldl (exec_scan_unit probe now) st ts)) =
   completedAt (run_results st)"
proof (induction ts arbitrary: st)
  case Nil
  then show ?case by simp
next
  case (Cons x ts)
  obtain d u where x: "x = (d, u)" by (cases x)
  with Cons.prems have "u \<noteq> Summary" by force
  with Cons x show ?case by (simp add: exec_completedAt)
qed

lemma foldl_exec_toolsRun:
  "toolsRun (run_results (foldl (exec_scan_unit probe now) st ts)) =
   toolsRun (run_results st) + length (List.map_filter unit_tool (map snd ts))"
proof (induction ts arbitrary: st)
  case Nil
  then show ?case by simp
next
  case (Cons x ts)
  obtain d u where x: "x = (d, u)" by (cases x)
  show ?case
    unfolding x by (simp add: Cons.IH exec_toolsRun split: option.splits)
qed

lemma foldl_exec_counts_ok:
  "counts_ok (run_results st) \<Longrightarrow>
   counts_ok (run_results (foldl (exec_scan_unit probe now) st ts))"
proof (induction ts arbitrary: st)
  case Nil
  then show ?case by simp
next
  case (Cons x ts)
  obtain d u where x: "x = (d, u)" by (cases x)
  from Cons show ?case unfolding x by (simp add: exec_counts_ok)
qed

lemma foldl_exec_findings:
  assumes "\<forall>t ph r. fst (probe t ph r) = f t ph"
  shows "findings (run_results (foldl (exec_scan_unit probe now) st ts)) =
         findings (run_results st) @
           List.map_filter (\<lambda>(t, ph). f t ph) (List.map_filter unit_tool (map snd ts))"
proof (induction ts arbitrary: st)
  case Nil
  then show ?case by simp
next
  case (Cons x ts)
  obtain d u where x: "x = (d, u)" by (cases x)
  show ?case
    unfolding x
    by (simp add: Cons.IH exec_findings [OF assms] split: option.splits)
qed


lemma map_filter_append: "List.map_filter g (xs @ ys) = List.map_filter g xs @ List.map_filter g ys"
  by (simp add: List.map_filter_def)

lemma phase_units_tools:
  "List.map_filter unit_tool (phase_units ps) =
   concat (map (\<lambda>(ph, tools). map (\<lambda>t. (t, ph)) tools) ps)"
proof (induction ps)
  case Nil
  then show ?case by (simp add: phase_units_def)
next
  case (Cons p ps)
  obtain ph tools where p: "p = (ph, tools)" by (cases p)
  have "List.map_filter unit_tool (map (\<lambda>t. Probe t ph) tools) = map (\<lambda>t. (t, ph)) tools"
    by (induction tools) simp_all
  with Cons show ?case
    unfolding p by (simp add: phase_units_def map_filter_append)
qed

lemma phase_units_count:
  "length (List.map_filter unit_tool (phase_units ps)) = length (concat (map snd ps))"
  unfolding phase_units_tools by (induction ps) (simp_all add: case_prod_beta)

lemma phase_units_findings:
  "List.map_filter (\<lambda>(t, ph). f t ph) (List.map_filter unit_tool (phase_units ps)) =
   concat (map (\<lambda>(ph, tools). List.map_filter (\<lambda>t. f t ph) tools) ps)"
  unfolding phase_units_tools
proof (induction ps)
  case Nil
  then show ?case by simp
next
  case (Cons p ps)
  obtain ph tools where p: "p = (ph, tools)" by (cases p)
  have "List.map_filter (\<lambda>(t, ph). f t ph) (map (\<lambda>t. (t, ph)) tools) =
        List.map_filter (\<lambda>t. f t ph) tools"
    by (simp add: List.map_filter_def filter_map comp_def)
  with Cons show ?case unfolding p by (simp add: map_filter_append)
qed

section \<open>The phases of a scan\<close>

lemma getToolsByRole_none:
  "getInstalledTools ls = [] \<Longrightarrow> getToolsByRole ls rs = []"
  by (simp add: getToolsByRole_def)

lemma installed_keys_all:
  "filter (\<lambda>(key, t). map_of (map (\<lambda>(k, t). (t_name t, JTrue)) TOOLS_DATABASE) (t_name t) \<noteq> None)
     TOOLS_DATABASE = TOOLS_DATABASE"
  by (simp add: TOOLS_DATABASE_def)

lemma getToolsByRole_all:
  assumes "getInstalledTools ls \<noteq> []"
  shows "getToolsByRole ls rs =
     map (\<lambda>(k, t). \<lparr>te_key = k, te_name = t_name t\<rparr>)
       (filter (\<lambda>(k, t). k \<in> set (concat (map role_tools rs))) TOOLS_DATABASE)"
proof -
  have "getItem ls ''tool_undefined_installed'' = Some ''true''"
    using assms getInstalledTools_none by blast
  then have all: "getInstalledTools ls = map (\<lambda>(k, t). (t_name t, JTrue)) TOOLS_DATABASE"
    by (rule getInstalledTools_all)
  show ?thesis
    unfolding getToolsByRole_def Let_def all installed_keys_all by (rule refl)
qed

lemma activePhases_none: "getInstalledTools ls = [] \<Longrightarrow> activePhases ls = []"
  by (simp add: activePhases_def scan_phases_def getToolsByRole_none)

lemma activePhases_all:
  "getInstalledTools ls \<noteq> [] \<Longrightarrow>
   activePhases ls =
    [(''NETWORK ANALYSIS'',
        [\<lparr>te_key = ''wireshark'', te_name = ''Wireshark''\<rparr>,
         \<lparr>te_key = ''suricata'', te_name = ''Suricata''\<rparr>,
         \<lparr>te_key = ''zeek'', te_name = ''Zeek (Bro)''\<rparr>]),
     (''VULNERABILITY SCAN'',
        [\<lparr>te_key = ''nessus'', te_name = ''Nessus Professional''\<rparr>,
         \<lparr>te_key = ''openvas'', te_name = ''OpenVAS''\<rparr>,
         \<lparr>te_key = ''gvm'', te_name = ''GVM''\<rparr>]),
     (''MALWARE & EDR'',
        [\<lparr>te_key = ''windows-defender'', te_name = ''Windows Defender''\<rparr>,
         \<lparr>te_key = ''malwarebytes'', te_name = ''Malwarebytes''\<rparr>,
         \<lparr>te_key = ''kaspersky'', te_name = ''Kaspersky Endpoint Security''\<rparr>,
         \<lparr>te_key = ''chkrootkit'', te_name = ''Chkrootkit''\<rparr>,
         \<lparr>te_key = ''rkhunter'', te_name = ''Rkhunter''\<rparr>,
         \<lparr>te_key = ''clamav'', te_name = ''ClamAV''\<rparr>]),
     (''FILE INTEGRITY'',
        [\<lparr>te_key = ''aide'', te_name = ''AIDE''\<rparr>,
         \<lparr>te_key = ''tripwire'', te_name = ''Tripwire''\<rparr>]),
     (''MEMORY FORENSICS'',
        [\<lparr>te_key = ''volatility'', te_name = ''Volatility''\<rparr>]),
     (''COMPLIANCE & AUDIT'',
        [\<lparr>te_key = ''cis-cat'', te_name = ''CIS-CAT Pro''\<rparr>,
         \<lparr>te_key = ''osquery'', te_name = ''OSQuery''\<rparr>,
         \<lparr>te_key = ''lynis'', te_name = ''Lynis''\<rparr>,
         \<lparr>te_key = ''tiger'', te_name = ''TIGER''\<rparr>,
         \<lparr>te_key = ''auditd'', te_name = ''Auditd''\<rparr>]),
     (''SIEM & LOG INGEST'',
        [\<lparr>te_key = ''splunk'', te_name = ''Splunk Enterprise''\<rparr>,
         \<lparr>te_key = ''elastic-stack'', te_name = ''Elastic Stack (ELK)''\<rparr>])]"
  by (simp add: activePhases_def scan_phases_def getToolsByRole_all)
     (simp add: TOOLS_DATABASE_def role_tools_def TOOL_ROLES_def)

lemma dispatched_distinct: "distinct (map te_key (dispatched ls))"
  by (cases "getInstalledTools ls = []")
     (simp_all add: dispatched_def activePhases_none activePhases_all)

section \<open>Properties of the scan\<close>

lemma performComprehensiveScan_no_tools:
  "getInstalledTools ls = [] \<Longrightarrow>
   performComprehensiveScan now ls store = (store, Inl NoToolsInstalled)"
  by (simp add: performComprehensiveScan_def)

lemma performComprehensiveScan_runs:
  assumes "getInstalledTools ls \<noteq> []" and "schedule_phases (activePhases ls) 400 = (us, d')"
  shows "performComprehensiveScan now ls store =
     (None, Inr (\<lparr>startedAt = now, completedAt = None, findings = [], critical = 0, high = 0,
                   medium = 0, low = 0, toolsRun = 0\<rparr>,
                 us @ [(d' + 400, Summary)]))"
proof -
  have "activePhases ls \<noteq> []"
    using assms(1) by (simp add: activePhases_all)
  then show ?thesis
    using assms by (simp add: performComprehensiveScan_def)
qed

lemma scan_states_runs:
  assumes "getInstalledTools ls \<noteq> []" and "schedule_phases (activePhases ls) 400 = (us, d')"
  shows "scan_states probe now rng ls store =
     Inr (run_units (exec_scan_unit probe now)
            \<lparr>run_results = \<lparr>startedAt = now, completedAt = None, findings = [], critical = 0,
                             high = 0, medium = 0, low = 0, toolsRun = 0\<rparr>,
             run_store = None, run_rng = rng\<rparr>
            (us @ [(d' + 400, Summary)]))"
  by (simp add: scan_states_def performComprehensiveScan_runs [OF assms]
      scan_timers_fire_in_order [OF assms(2)])

lemma scan_aborts:
  "getInstalledTools ls = [] \<Longrightarrow> scan_states probe now rng ls store = Inl NoToolsInstalled"
  "getInstalledTools ls = [] \<Longrightarrow> scan probe now rng ls store = Inl NoToolsInstalled"
  by (simp_all add: scan_def scan_states_def performComprehensiveScan_no_tools)

lemma scan_runs:
  assumes "getInstalledTools ls \<noteq> []" and "schedule_phases (activePhases ls) 400 = (us, d')"
  shows "scan probe now rng ls store =
     Inr (exec_scan_unit probe now
            (foldl (exec_scan_unit probe now)
               \<lparr>run_results = \<lparr>startedAt = now, completedAt = None, findings = [],
                                critical = 0, high = 0, medium = 0, low = 0, toolsRun = 0\<rparr>,
                run_store = None, run_rng = rng\<rparr> us)
            (d' + 400, Summary))"
  by (simp add: scan_def scan_states_runs [OF assms] run_units_last)


lemma units_tool_count:
  assumes "schedule_phases ps d = (us, d')"
  shows "length (List.map_filter unit_tool (map snd us)) = length (concat (map snd ps))"
proof -
  have "map snd us = phase_units ps"
    using schedule_phases_units [of ps d] assms by simp
  then show ?thesis by (simp add: phase_units_count)
qed

lemma disjoint_counts:
  "length (filter (\<lambda>f. f_level f = LCritical) fs) + length (filter (\<lambda>f. f_level f = LError) fs)
   + length (filter (\<lambda>f. f_level f = LWarning) fs)
   + length (filter (\<lambda>f. f_level f = LInfo \<and> f_flagged f) fs) \<le> length fs"
  by (induction fs) auto

text \<open>
  Claim C7. A scan called while no tool is reported installed returns the error of its
  first early return: it registers no timer, so no phase is dispatched, and it leaves the
  Result Store as it found it.
\<close>

theorem scan_without_tools_aborts:
  assumes "getInstalledTools ls = []"
  shows "performComprehensiveScan now ls store = (store, Inl NoToolsInstalled)
         \<and> scan_states probe now rng ls store = Inl NoToolsInstalled
         \<and> scan probe now rng ls store = Inl NoToolsInstalled"
  using assms by (simp add: performComprehensiveScan_no_tools scan_aborts)

theorem scan_without_tools_aborts_witness:
  "getInstalledTools \<lparr>ls_items = Map.empty, ls_installedTools = None\<rparr> = []
   \<and> performComprehensiveScan 0 \<lparr>ls_items = Map.empty, ls_installedTools = None\<rparr> None =
       (None, Inl NoToolsInstalled)
   \<and> scan (\<lambda>t ph r. (None, r)) 0 () \<lparr>ls_items = Map.empty, ls_installedTools = None\<rparr> None =
       Inl NoToolsInstalled"
proof -
  have h: "getInstalledTools \<lparr>ls_items = Map.empty, ls_installedTools = None\<rparr> = []"
    by (rule getInstalledTools_none) (simp add: getItem_def)
  show ?thesis
    using h scan_without_tools_aborts [OF h, of 0 None "\<lambda>t ph r. (None, r)" "()"] by simp
qed

text \<open>
  Claim C5. In the result of a completed scan \<open>toolsRun\<close> is the number of tools
  dispatched, which are pairwise distinct; each of the four counters is the number of
  recorded findings of its kind (critical; error as high; warning as medium; info and
  flagged as low), and so their sum is at most the number of findings.
\<close>

theorem scan_result_counts:
  assumes "scan probe now rng ls store = Inr st"
  shows "toolsRun (run_results st) = length (dispatched ls)
         \<and> toolsRun (run_results st) = card (set (map te_key (dispatched ls)))
         \<and> counts_ok (run_results st)
         \<and> critical (run_results st) + high (run_results st) + medium (run_results st)
             + low (run_results st) \<le> length (findings (run_results st))"
proof -
  have inst: "getInstalledTools ls \<noteq> []"
    using assms scan_aborts(2) [of ls probe now rng store] by auto
  obtain us d' where sched: "schedule_phases (activePhases ls) 400 = (us, d')"
    by (cases "schedule_phases (activePhases ls) 400")
  let ?init = "\<lparr>run_results = \<lparr>startedAt = now, completedAt = None, findings = [],
                                critical = 0, high = 0, medium = 0, low = 0, toolsRun = 0\<rparr>,
                run_store = None, run_rng = rng\<rparr>"
  let ?mid = "foldl (exec_scan_unit probe now) ?init us"
  have st: "st = exec_scan_unit probe now ?mid (d' + 400, Summary)"
    using assms scan_runs [OF inst sched, of probe now rng store] by simp
  have "toolsRun (run_results ?mid) = length (dispatched ls)"
    by (simp add: foldl_exec_toolsRun units_tool_count [OF sched] dispatched_def)
  then have run: "toolsRun (run_results st) = length (dispatched ls)"
    unfolding st by (simp add: exec_toolsRun del: exec_scan_unit.simps)
  have "counts_ok (run_results ?init)"
    by (simp add: counts_ok_def)
  then have "counts_ok (run_results ?mid)"
    by (rule foldl_exec_counts_ok)
  then have ok: "counts_ok (run_results st)"
    unfolding st by (rule exec_counts_ok)
  have card: "card (set (map te_key (dispatched ls))) = length (dispatched ls)"
    using dispatched_distinct [of ls] distinct_card by fastforce
  have sum: "critical (run_results st) + high (run_results st) + medium (run_results st)
             + low (run_results st) \<le> length (findings (run_results st))"
    using ok disjoint_counts [of "findings (run_results st)"] by (simp add: counts_ok_def)
  show ?thesis using run ok card sum by simp
qed

section \<open>An example scan\<close>

lemma all_installed_nonempty: "getInstalledTools storage_all_installed \<noteq> []"
  by (simp add: getInstalledTools_all storage_all_installed_def getItem_def TOOLS_DATABASE_def)


lemma clamav_scan:
  "scan clamav_probe 0 () storage_all_installed store =
   Inr \<lparr>run_results = clamav_scan_result, run_store = Some clamav_scan_result, run_rng = ()\<rparr>"
  by (simp add: scan_def scan_states_def performComprehensiveScan_def all_installed_nonempty
      activePhases_all [OF all_installed_nonempty] fire_order_def clamav_probe_def
      record_finding_def clamav_scan_result_def clamav_finding_def Let_def)

section \<open>Order of findings and the Result Store during a scan\<close>


theorem scan_result_counts_witness:
  "scan clamav_probe 0 () storage_all_installed None =
     Inr \<lparr>run_results = clamav_scan_result, run_store = Some clamav_scan_result, run_rng = ()\<rparr>
   \<and> toolsRun clamav_scan_result = length (dispatched storage_all_installed)
   \<and> toolsRun clamav_scan_result = 22
   \<and> counts_ok clamav_scan_result
   \<and> critical clamav_scan_result + high clamav_scan_result + medium clamav_scan_result
       + low clamav_scan_result \<le> length (findings clamav_scan_result)"
proof -
  have h: "scan clamav_probe 0 () storage_all_installed None =
     Inr \<lparr>run_results = clamav_scan_result, run_store = Some clamav_scan_result, run_rng = ()\<rparr>"
    by (rule clamav_scan)
  have "toolsRun clamav_scan_result = 22"
    by (simp add: clamav_scan_result_def)
  then show ?thesis
    using h scan_result_counts [OF h] by simp
qed

text \<open>
  Claim C8. With a probe whose finding depends on the tool and the phase only, the
  findings of a scan are those of the active phases in their declared order and, inside
  a phase, of its tools in the order of the catalog; they are the same for any two runs
  on the same storage, whatever the clock, the random source and the Result Store.
\<close>

theorem scan_findings_deterministic_order:
  assumes "\<forall>t ph r. fst (probe t ph r) = f t ph"
  shows "scan_findings probe now rng ls store =
           (if getInstalledTools ls = [] then Inl NoToolsInstalled
            else if activePhases ls = [] then Inl NoScannerCapability
            else Inr (concat (map (\<lambda>(ph, tools). List.map_filter (\<lambda>t. f t ph) tools)
                                (activePhases ls))))
         \<and> scan_findings probe now' rng' ls store' = scan_findings probe now rng ls store
         \<and> activePhases ls = filter (\<lambda>(ph, tools). tools \<noteq> []) (scan_phases ls)
         \<and> map fst (scan_phases ls) =
             [''NETWORK ANALYSIS'', ''VULNERABILITY SCAN'', ''MALWARE & EDR'', ''FILE INTEGRITY'',
              ''MEMORY FORENSICS'', ''COMPLIANCE & AUDIT'', ''SIEM & LOG INGEST'']
         \<and> map te_key (getToolsByRole ls rs) =
             filter (\<lambda>k. k \<in> set (concat (map role_tools rs)))
               (map fst (filter (\<lambda>(k, t). map_of (getInstalledTools ls) (t_name t) \<noteq> None)
                           TOOLS_DATABASE))"
proof -
  have formula: "scan_findings probe n r ls s =
           (if getInstalledTools ls = [] then Inl NoToolsInstalled
            else if activePhases ls = [] then Inl NoScannerCapability
            else Inr (concat (map (\<lambda>(ph, tools). List.map_filter (\<lambda>t. f t ph) tools)
                                (activePhases ls))))" for n r s
  proof (cases "getInstalledTools ls = []")
    case True
    then show ?thesis by (simp add: scan_findings_def scan_aborts)
  next
    case False
    then have active: "activePhases ls \<noteq> []" by (simp add: activePhases_all)
    obtain us d' where sched: "schedule_phases (activePhases ls) 400 = (us, d')"
      by (cases "schedule_phases (activePhases ls) 400")
    have units: "map snd us = phase_units (activePhases ls)"
      using schedule_phases_units [of "activePhases ls" 400] sched by simp
    show ?thesis
      using False active
      by (simp add: scan_findings_def scan_runs [OF False sched] exec_findings [OF assms]
          foldl_exec_findings [OF assms] units phase_units_findings
          del: exec_scan_unit.simps)
  qed
  have order: "map te_key (getToolsByRole ls rs) =
             filter (\<lambda>k. k \<in> set (concat (map role_tools rs)))
               (map fst (filter (\<lambda>(k, t). map_of (getInstalledTools ls) (t_name t) \<noteq> None)
                           TOOLS_DATABASE))"
    by (simp add: getToolsByRole_def filter_map comp_def case_prod_beta)
  have phases: "activePhases ls = filter (\<lambda>(ph, tools). tools \<noteq> []) (scan_phases ls)"
    by (simp add: activePhases_def)
  have names: "map fst (scan_phases ls) =
             [''NETWORK ANALYSIS'', ''VULNERABILITY SCAN'', ''MALWARE & EDR'', ''FILE INTEGRITY'',
              ''MEMORY FORENSICS'', ''COMPLIANCE & AUDIT'', ''SIEM & LOG INGEST'']"
    by (simp add: scan_phases_def)
  show ?thesis
    using formula [of now rng store] formula [of now' rng' store'] order phases names
    by presburger
qed

theorem scan_findings_deterministic_order_witness:
  "(\<forall>t ph r. fst (clamav_probe t ph r) = fst (clamav_probe t ph ()))
   \<and> scan_findings clamav_probe 0 () storage_all_installed None = Inr [clamav_finding]
   \<and> scan_findings clamav_probe 7 () storage_all_installed (Some clamav_scan_result) =
       scan_findings clamav_probe 0 () storage_all_installed None"
proof -
  have h: "\<forall>t ph r. fst (clamav_probe t ph r) = fst (clamav_probe t ph ())"
    by simp
  note at_example = scan_findings_deterministic_order [OF h, of 0 "()" storage_all_installed None
      7 "()" "Some clamav_scan_result" "[]"]
  have ne: "activePhases storage_all_installed \<noteq> []"
    by (simp add: activePhases_all [OF all_installed_nonempty])
  have rhs: "concat (map (\<lambda>(ph, tools). List.map_filter (\<lambda>t. fst (clamav_probe t ph ())) tools)
                       (activePhases storage_all_installed)) = [clamav_finding]"
    by (simp add: activePhases_all [OF all_installed_nonempty] clamav_probe_def
        clamav_finding_def List.map_filter_def)
  have "scan_findings clamav_probe 0 () storage_all_installed None = Inr [clamav_finding]"
    unfolding at_example [THEN conjunct1] using all_installed_nonempty ne rhs by simp
  then show ?thesis using h at_example by simp
qed




section \<open>Timers of a defend run\<close>

lemma within_append:
  "within a b us \<Longrightarrow> within b c vs \<Longrightarrow> a \<le> b \<Longrightarrow> b \<le> c \<Longrightarrow> within a c (us @ vs)"
  by (fastforce simp: within_def sorted_append list_all_iff)

lemma within_Nil [simp]: "within a b []"
  by (simp add: within_def)

lemma within_fire_order:
  assumes "within a b us"
  shows "fire_order (us @ [(b + 400, u)]) = us @ [(b + 400, u)]"
proof -
  have "sorted (map fst (us @ [(b + 400, u)]))"
    using assms by (fastforce simp: within_def sorted_append list_all_iff)
  then show ?thesis
    unfolding fire_order_def by (rule sort_key_id_if_sorted)
qed

lemma schedule_defenders_bounds:
  "schedule_defenders p step tools d = (us, d') \<Longrightarrow>
   d \<le> d' \<and> sorted (map fst us) \<and> (\<forall>u \<in> set us. d \<le> fst u \<and> fst u \<le> d')"
proof (induction tools arbitrary: d us d')
  case Nil
  then show ?case by simp
next
  case (Cons t tools)
  obtain rest e where r: "schedule_defenders p step tools (d + step) = (rest, e)"
    by (cases "schedule_defenders p step tools (d + step)")
  note ih = Cons.IH [OF r]
  have us: "us = (d, Defender p t) # rest" and d': "d' = e"
    using Cons.prems r by simp_all
  have "\<forall>x \<in> set rest. d \<le> fst x \<and> fst x \<le> e"
    using ih by fastforce
  moreover have "d \<le> e" using ih by simp
  ultimately show ?case
    using ih unfolding us d' by auto
qed

lemma schedule_defenders_units:
  "map snd (fst (schedule_defenders p step tools d)) = map (Defender p) tools"
  by (induction tools arbitrary: d) (simp_all add: case_prod_beta)

lemma defend_phase_block_within:
  assumes "defend_phase_block p step tools trigger d = (us, d')"
  shows "d \<le> d' \<and> within d d' us"
proof (cases "length tools > 0 \<and> trigger")
  case True
  obtain ts e where s: "schedule_defenders p step tools (d + 300) = (ts, e)"
    by (cases "schedule_defenders p step tools (d + 300)")
  note b = schedule_defenders_bounds [OF s]
  have us: "us = (d, DSection p) # ts" and d': "d' = e + 200"
    using assms True s by (simp_all add: defend_phase_block_def)
  have "\<forall>x \<in> set ts. d \<le> fst x \<and> fst x < e + 200"
    using b by fastforce
  then show ?thesis
    using b unfolding us d' within_def by (auto simp: list_all_iff)
next
  case False
  then show ?thesis
    using assms by (auto simp: defend_phase_block_def)
qed

lemma defend_phase_block_units:
  assumes "defend_phase_block p step tools trigger d = (us, d')"
  shows "map snd us = (if tools \<noteq> [] \<and> trigger then DSection p # map (Defender p) tools else [])"
proof (cases "tools \<noteq> [] \<and> trigger")
  case True
  obtain ts e where s: "schedule_defenders p step tools (d + 300) = (ts, e)"
    by (cases "schedule_defenders p step tools (d + 300)")
  have "map snd ts = map (Defender p) tools"
    using schedule_defenders_units [of p step tools "d + 300"] s by simp
  then show ?thesis
    using assms True s by (auto simp: defend_phase_block_def)
next
  case False
  then show ?thesis
    using assms by (auto simp: defend_phase_block_def)
qed

section \<open>Defense phases and their triggers\<close>

lemma schedule_defenders_sections:
  "List.map_filter section_of (fst (schedule_defenders p step tools d)) = []"
  by (induction tools arbitrary: d) (simp_all add: case_prod_beta)

lemma defend_phase_block_sections:
  assumes "defend_phase_block p step tools trigger d = (us, d')"
  shows "List.map_filter section_of us = (if tools \<noteq> [] \<and> trigger then [p] else [])"
proof (cases "tools \<noteq> [] \<and> trigger")
  case True
  obtain ts e where s: "schedule_defenders p step tools (d + 300) = (ts, e)"
    by (cases "schedule_defenders p step tools (d + 300)")
  have "List.map_filter section_of ts = []"
    using schedule_defenders_sections [of p step tools "d + 300"] s by simp
  then show ?thesis
    using assms True s by (auto simp: defend_phase_block_def)
next
  case False
  then show ?thesis
    using assms by (auto simp: defend_phase_block_def)
qed

lemma activateSmartDefense_no_tools:
  "getInstalledTools ls = [] \<Longrightarrow> activateSmartDefense ls store = Inl NoToolsInstalled"
  by (simp add: activateSmartDefense_def)

lemma activateSmartDefense_runs:
  assumes "getInstalledTools ls \<noteq> []"
  obtains u1 d1 u2 d2 u3 d3 u4 d4 u5 d5 u6 d6 where
    "defend_phase_block Network_Perimeter 500
       (filter (\<lambda>t. te_key t \<in> set [''ufw'', ''fail2ban'', ''suricata''])
          (getToolsByRole ls [''firewall'', ''ips'']))
       (\<not> hasScanData store \<or> hasNetworkThreat (defend_findings store)
          \<or> hasVulns (defend_findings store)) 400 = (u1, d1)"
    "defend_phase_block Malware_Containment 500 (getToolsByRole ls [''av_remediate''])
       (\<not> hasScanData store \<or> hasMalware (defend_findings store)
          \<or> hasMemoryThreat (defend_findings store)) d1 = (u2, d2)"
    "defend_phase_block Access_Control 500
       (filter (\<lambda>t. te_key t \<in> set [''apparmor'', ''selinux'']) (getToolsByRole ls [''firewall'']))
       (\<not> hasScanData store \<or> hasComplianceGap (defend_findings store)
          \<or> hasMalware (defend_findings store)) d2 = (u3, d3)"
    "defend_phase_block File_Integrity 450 (getToolsByRole ls [''integrity_scan''])
       (\<not> hasScanData store \<or> hasIntegrityViolation (defend_findings store)) d3 = (u4, d4)"
    "defend_phase_block Audit_Hardening 500
       (filter (\<lambda>t. te_key t \<in> set [''lynis'', ''auditd''])
          (getToolsByRole ls [''compliance_scan'']))
       (\<not> hasScanData store \<or> hasComplianceGap (defend_findings store)) d4 = (u5, d5)"
    "defend_phase_block SIEM_Alert_Rules 450 (getToolsByRole ls [''siem''])
       (\<not> hasScanData store \<or> length (defend_findings store) > 0) d5 = (u6, d6)"
    "activateSmartDefense ls store =
       Inr (u1 @ u2 @ u3 @ u4 @ u5 @ u6 @ [(d6 + 400, DSummary)])"
proof -
  obtain u1 d1 where b1: "defend_phase_block Network_Perimeter 500
       (filter (\<lambda>t. te_key t \<in> set [''ufw'', ''fail2ban'', ''suricata''])
          (getToolsByRole ls [''firewall'', ''ips'']))
       (\<not> hasScanData store \<or> hasNetworkThreat (defend_findings store)
          \<or> hasVulns (defend_findings store)) 400 = (u1, d1)"
    using prod.exhaust by blast
  obtain u2 d2 where b2: "defend_phase_block Malware_Containment 500
       (getToolsByRole ls [''av_remediate''])
       (\<not> hasScanData store \<or> hasMalware (defend_findings store)
          \<or> hasMemoryThreat (defend_findings store)) d1 = (u2, d2)"
    using prod.exhaust by blast
  obtain u3 d3 where b3: "defend_phase_block Access_Control 500
       (filter (\<lambda>t. te_key t \<in> set [''apparmor'', ''selinux'']) (getToolsByRole ls [''firewall'']))
       (\<not> hasScanData store \<or> hasComplianceGap (defend_findings store)
          \<or> hasMalware (defend_findings store)) d2 = (u3, d3)"
    using prod.exhaust by blast
  obtain u4 d4 where b4: "defend_phase_block File_Integrity 450
       (getToolsByRole ls [''integrity_scan''])
       (\<not> hasScanData store \<or> hasIntegrityViolation (defend_findings store)) d3 = (u4, d4)"
    using prod.exhaust by blast
  obtain u5 d5 where b5: "defend_phase_block Audit_Hardening 500
       (filter (\<lambda>t. te_key t \<in> set [''lynis'', ''auditd''])
          (getToolsByRole ls [''compliance_scan'']))
       (\<not> hasScanData store \<or> hasComplianceGap (defend_findings store)) d4 = (u5, d5)"
    using prod.exhaust by blast
  obtain u6 d6 where b6: "defend_phase_block SIEM_Alert_Rules 450 (getToolsByRole ls [''siem''])
       (\<not> hasScanData store \<or> length (defend_findings store) > 0) d5 = (u6, d6)"
    using prod.exhaust by blast
  have "activateSmartDefense ls store =
       Inr (u1 @ u2 @ u3 @ u4 @ u5 @ u6 @ [(d6 + 400, DSummary)])"
    using assms b1 b2 b3 b4 b5 b6 by (simp add: activateSmartDefense_def Let_def)
  with b1 b2 b3 b4 b5 b6 that show ?thesis by blast
qed


lemma engaged_phases_no_tools:
  "getInstalledTools ls = [] \<Longrightarrow> engaged_phases ls store = []"
  by (simp add: engaged_phases_def activateSmartDefense_no_tools)

lemma malware_containment_engaged:
  assumes "getInstalledTools ls \<noteq> []"
  shows "(Malware_Containment \<in> set (engaged_phases ls store)) =
         (getToolsByRole ls [''av_remediate''] \<noteq> []
          \<and> (\<not> hasScanData store \<or> hasMalware (defend_findings store)
               \<or> hasMemoryThreat (defend_findings store)))"
proof -
  from activateSmartDefense_runs [OF assms, of store]
  obtain u1 d1 u2 d2 u3 d3 u4 d4 u5 d5 u6 d6 where
    b1: "defend_phase_block Network_Perimeter 500
       (filter (\<lambda>t. te_key t \<in> set [''ufw'', ''fail2ban'', ''suricata''])
          (getToolsByRole ls [''firewall'', ''ips'']))
       (\<not> hasScanData store \<or> hasNetworkThreat (defend_findings store)
          \<or> hasVulns (defend_findings store)) 400 = (u1, d1)" and
    b2: "defend_phase_block Malware_Containment 500 (getToolsByRole ls [''av_remediate''])
       (\<not> hasScanData store \<or> hasMalware (defend_findings store)
          \<or> hasMemoryThreat (defend_findings store)) d1 = (u2, d2)" and
    b3: "defend_phase_block Access_Control 500
       (filter (\<lambda>t. te_key t \<in> set [''apparmor'', ''selinux'']) (getToolsByRole ls [''firewall'']))
       (\<not> hasScanData store \<or> hasComplianceGap (defend_findings store)
          \<or> hasMalware (defend_findings store)) d2 = (u3, d3)" and
    b4: "defend_phase_block File_Integrity 450 (getToolsByRole ls [''integrity_scan''])
       (\<not> hasScanData store \<or> hasIntegrityViolation (defend_findings store)) d3 = (u4, d4)" and
    b5: "defend_phase_block Audit_Hardening 500
       (filter (\<lambda>t. te_key t \<in> set [''lynis'', ''auditd''])
          (getToolsByRole ls [''compliance_scan'']))
       (\<not> hasScanData store \<or> hasComplianceGap (defend_findings store)) d4 = (u5, d5)" and
    b6: "defend_phase_block SIEM_Alert_Rules 450 (getToolsByRole ls [''siem''])
       (\<not> hasScanData store \<or> length (defend_findings store) > 0) d5 = (u6, d6)" and
    plan: "activateSmartDefense ls store =
       Inr (u1 @ u2 @ u3 @ u4 @ u5 @ u6 @ [(d6 + 400, DSummary)])"
    by blast
  note s = defend_phase_block_sections [OF b1] defend_phase_block_sections [OF b2]
    defend_phase_block_sections [OF b3] defend_phase_block_sections [OF b4]
    defend_phase_block_sections [OF b5] defend_phase_block_sections [OF b6]
  show ?thesis
    by (simp add: engaged_phases_def plan map_filter_append s List.map_filter_simps)
qed

lemma hasMalware_roles:
  "hasMalware fs =
   list_ex (\<lambda>f. f_key f \<in> set (role_tools ''malware_scan'')
               \<and> f_level f \<in> set [LCritical, LError]) fs"
  by (simp add: hasMalware_def role_tools_def TOOL_ROLES_def)

lemma hasMemoryThreat_roles:
  "hasMemoryThreat fs =
   list_ex (\<lambda>f. f_key f \<in> set (role_tools ''memory_scan'')
               \<and> f_level f \<in> set [LCritical, LWarning]) fs"
  by (simp add: hasMemoryThreat_def role_tools_def TOOL_ROLES_def)

lemma getToolsByRole_installed:
  "getToolsByRole ls rs \<noteq> [] \<Longrightarrow> getInstalledTools ls \<noteq> []"
  using getToolsByRole_none by blast

text \<open>
  Claim C3, as amended. For a complete ScanResult in the Result Store and at least one
  installed tool of role \<^verbatim>\<open>av_remediate\<close>, defend engages Malware Containment exactly
  when some finding of a \<^verbatim>\<open>malware_scan\<close> tool has level critical or error, or some
  finding of the \<^verbatim>\<open>memory_scan\<close> tool has level critical or warning. The run is not in
  broad mode; a single critical finding of a \<^verbatim>\<open>malware_scan\<close> tool engages the phase.
\<close>

theorem malware_containment_trigger:
  assumes "completedAt r \<noteq> None" and "getToolsByRole ls [''av_remediate''] \<noteq> []"
  shows "(Malware_Containment \<in> set (engaged_phases ls (Some r))) =
           (list_ex (\<lambda>f. f_key f \<in> set (role_tools ''malware_scan'')
                        \<and> f_level f \<in> set [LCritical, LError]) (findings r)
            \<or> list_ex (\<lambda>f. f_key f \<in> set (role_tools ''memory_scan'')
                        \<and> f_level f \<in> set [LCritical, LWarning]) (findings r))
         \<and> hasScanData (Some r)
         \<and> (findings r = [f] \<and> f_key f \<in> set (role_tools ''malware_scan'')
              \<and> f_level f = LCritical
            \<longrightarrow> Malware_Containment \<in> set (engaged_phases ls (Some r)))"
proof -
  have data: "hasScanData (Some r)"
    using assms(1) by (simp add: hasScanData_def)
  then have fs: "defend_findings (Some r) = findings r"
    by (simp add: defend_findings_def)
  have iff: "(Malware_Containment \<in> set (engaged_phases ls (Some r))) =
           (list_ex (\<lambda>f. f_key f \<in> set (role_tools ''malware_scan'')
                        \<and> f_level f \<in> set [LCritical, LError]) (findings r)
            \<or> list_ex (\<lambda>f. f_key f \<in> set (role_tools ''memory_scan'')
                        \<and> f_level f \<in> set [LCritical, LWarning]) (findings r))"
    using malware_containment_engaged [OF getToolsByRole_installed [OF assms(2)], of "Some r"]
      assms(2) data
    by (simp add: fs hasMalware_roles hasMemoryThreat_roles)
  have "findings r = [f] \<and> f_key f \<in> set (role_tools ''malware_scan'') \<and> f_level f = LCritical
        \<longrightarrow> Malware_Containment \<in> set (engaged_phases ls (Some r))"
    unfolding iff by simp
  with iff data show ?thesis by blast
qed

lemma av_tools_all_installed: "getToolsByRole storage_all_installed [''av_remediate''] \<noteq> []"
  by (simp add: getToolsByRole_all [OF all_installed_nonempty])
     (simp add: TOOLS_DATABASE_def role_tools_def TOOL_ROLES_def)

theorem malware_containment_trigger_witness:
  "completedAt clamav_scan_result \<noteq> None
   \<and> getToolsByRole storage_all_installed [''av_remediate''] \<noteq> []
   \<and> findings clamav_scan_result = [clamav_finding]
   \<and> f_key clamav_finding \<in> set (role_tools ''malware_scan'')
   \<and> f_level clamav_finding = LCritical
   \<and> hasScanData (Some clamav_scan_result)
   \<and> Malware_Containment \<in> set (engaged_phases storage_all_installed (Some clamav_scan_result))"
proof -
  have c: "completedAt clamav_scan_result \<noteq> None"
    by (simp add: clamav_scan_result_def)
  have f: "findings clamav_scan_result = [clamav_finding]
           \<and> f_key clamav_finding \<in> set (role_tools ''malware_scan'')
           \<and> f_level clamav_finding = LCritical"
    by (simp add: clamav_scan_result_def clamav_finding_def role_tools_def TOOL_ROLES_def)
  show ?thesis
    using c f av_tools_all_installed
      malware_containment_trigger [OF c av_tools_all_installed, of clamav_finding]
    by blast
qed

text \<open>
  Without the amendment the statement fails: a ScanResult whose only finding is a
  warning of Volatility has no finding of a \<^verbatim>\<open>malware_scan\<close> or \<^verbatim>\<open>memory_scan\<close>
  tool at level critical or error, and Malware Containment is engaged.
\<close>

theorem malware_containment_on_memory_warning_counterexample:
  "hasScanData (Some volatility_scan_result)
   \<and> getToolsByRole storage_all_installed [''av_remediate''] \<noteq> []
   \<and> Malware_Containment \<in> set (engaged_phases storage_all_installed (Some volatility_scan_result))
   \<and> \<not> list_ex (\<lambda>f. f_key f \<in> set (role_tools ''malware_scan'' @ role_tools ''memory_scan'')
                    \<and> f_level f \<in> set [LCritical, LError]) (findings volatility_scan_result)"
proof -
  have data: "hasScanData (Some volatility_scan_result)"
    by (simp add: hasScanData_def volatility_scan_result_def)
  have "hasMemoryThreat (defend_findings (Some volatility_scan_result))"
    using data by (simp add: defend_findings_def hasMemoryThreat_def volatility_scan_result_def)
  then have "Malware_Containment \<in> set (engaged_phases storage_all_installed (Some volatility_scan_result))"
    using av_tools_all_installed
    by (simp add: malware_containment_engaged [OF all_installed_nonempty])
  moreover have "\<not> list_ex (\<lambda>f. f_key f \<in> set (role_tools ''malware_scan'' @ role_tools ''memory_scan'')
                    \<and> f_level f \<in> set [LCritical, LError]) (findings volatility_scan_result)"
    by (simp add: volatility_scan_result_def)
  ultimately show ?thesis
    using data av_tools_all_installed by blast
qed

section \<open>Posture of a defend run\<close>

lemma exec_defend_actions:
  "actionsTotal (exec_defend_unit sr st x) = actionsTotal st + (if counting_unit x then 1 else 0)"
proof -
  obtain d u where x: "x = (d, u)" by (cases x)
  show ?thesis unfolding x by (cases u) simp_all
qed

lemma foldl_exec_defend_actions:
  "actionsTotal (foldl (exec_defend_unit sr) st ts) =
   actionsTotal st + length (filter counting_unit ts)"
  by (induction ts arbitrary: st) (simp_all add: exec_defend_actions del: exec_defend_unit.simps)

lemma defend_phase_block_no_summary:
  assumes "defend_phase_block p step tools trigger d = (us, d')"
  shows "DSummary \<notin> snd ` set us"
proof -
  have "DSummary \<notin> set (map snd us)"
    unfolding defend_phase_block_units [OF assms] by auto
  then show ?thesis by simp
qed

lemma getToolsByRole_keys:
  "t \<in> set (getToolsByRole ls rs) \<Longrightarrow> te_key t \<in> set (concat (map role_tools rs))"
  by (auto simp: getToolsByRole_def)

lemma defend_phase_block_counting:
  assumes "defend_phase_block p step tools trigger d = (us, d')"
    and "tools \<noteq> []" and "trigger" and "\<forall>t \<in> set tools. counts_action p (te_key t)"
  shows "filter counting_unit us \<noteq> []"
proof -
  obtain t where t: "t \<in> set tools" using assms(2) by (cases tools) auto
  have "Defender p t \<in> set (map snd us)"
    unfolding defend_phase_block_units [OF assms(1)] using assms(2,3) t by simp
  then obtain e where "(e, Defender p t) \<in> set us" by auto
  moreover have "counting_unit (e, Defender p t)"
    using assms(4) t by simp
  ultimately have "\<exists>x \<in> set us. counting_unit x" by blast
  then show ?thesis by (simp add: filter_empty_conv)
qed

lemma compute_posture_findings:
  assumes "case store of None \<Rightarrow> True | Some r \<Rightarrow> counts_ok r"
  shows "compute_posture n store =
     (if n = 0 then ''NO DEFENSIVE TOOLS INSTALLED''
      else if defend_findings store = [] then ''HARDENED (preventive)''
      else if list_ex (\<lambda>f. f_level f = LCritical) (defend_findings store)
           then ''INCIDENT RESPONSE ACTIVE''
      else ''HARDENED'')"
proof (cases store)
  case None
  then show ?thesis
    by (simp add: compute_posture_def defend_findings_def hasScanData_def)
next
  case (Some r)
  with assms have "critical r = length (filter (\<lambda>f. f_level f = LCritical) (findings r))"
    by (simp add: counts_ok_def)
  then have "(critical r > 0) = list_ex (\<lambda>f. f_level f = LCritical) (findings r)"
    by (simp add: list_ex_iff filter_empty_conv)
  then show ?thesis
    using Some by (simp add: compute_posture_def defend_findings_def hasScanData_def)
qed

lemma defend_no_tools: "getInstalledTools ls = [] \<Longrightarrow> defend ls store = Inl NoToolsInstalled"
  by (simp add: defend_def activateSmartDefense_no_tools)

lemma defend_runs:
  assumes "getInstalledTools ls \<noteq> []"
  obtains st where
    "defend ls store = Inr st"
    "posture st = Some (compute_posture (actionsTotal st) store)"
    "getToolsByRole ls [''av_remediate''] \<noteq> [] \<Longrightarrow>
     hasMalware (defend_findings store) \<Longrightarrow> actionsTotal st \<noteq> 0"
proof -
  from activateSmartDefense_runs [OF assms, of store]
  obtain u1 d1 u2 d2 u3 d3 u4 d4 u5 d5 u6 d6 where
    b1: "defend_phase_block Network_Perimeter 500
       (filter (\<lambda>t. te_key t \<in> set [''ufw'', ''fail2ban'', ''suricata''])
          (getToolsByRole ls [''firewall'', ''ips'']))
       (\<not> hasScanData store \<or> hasNetworkThreat (defend_findings store)
          \<or> hasVulns (defend_findings store)) 400 = (u1, d1)" and
    b2: "defend_phase_block Malware_Containment 500 (getToolsByRole ls [''av_remediate''])
       (\<not> hasScanData store \<or> hasMalware (defend_findings store)
          \<or> hasMemoryThreat (defend_findings store)) d1 = (u2, d2)" and
    b3: "defend_phase_block Access_Control 500
       (filter (\<lambda>t. te_key t \<in> set [''apparmor'', ''selinux'']) (getToolsByRole ls [''firewall'']))
       (\<not> hasScanData store \<or> hasComplianceGap (defend_findings store)
          \<or> hasMalware (defend_findings store)) d2 = (u3, d3)" and
    b4: "defend_phase_block File_Integrity 450 (getToolsByRole ls [''integrity_scan''])
       (\<not> hasScanData store \<or> hasIntegrityViolation (defend_findings store)) d3 = (u4, d4)" and
    b5: "defend_phase_block Audit_Hardening 500
       (filter (\<lambda>t. te_key t \<in> set [''lynis'', ''auditd''])
          (getToolsByRole ls [''compliance_scan'']))
       (\<not> hasScanData store \<or> hasComplianceGap (defend_findings store)) d4 = (u5, d5)" and
    b6: "defend_phase_block SIEM_Alert_Rules 450 (getToolsByRole ls [''siem''])
       (\<not> hasScanData store \<or> length (defend_findings store) > 0) d5 = (u6, d6)" and
    plan: "activateSmartDefense ls store =
       Inr (u1 @ u2 @ u3 @ u4 @ u5 @ u6 @ [(d6 + 400, DSummary)])"
    by blast
  let ?us = "u1 @ u2 @ u3 @ u4 @ u5 @ u6"
  let ?init = "\<lparr>actionsTotal = 0, toolsEngaged = [], posture = None\<rparr>"
  note w = defend_phase_block_within [OF b1] defend_phase_block_within [OF b2]
    defend_phase_block_within [OF b3] defend_phase_block_within [OF b4]
    defend_phase_block_within [OF b5] defend_phase_block_within [OF b6]
  have w56: "within d4 d6 (u5 @ u6)" using w by (auto intro: within_append)
  have w46: "within d3 d6 (u4 @ u5 @ u6)" using w w56 by (auto intro: within_append)
  have w36: "within d2 d6 (u3 @ u4 @ u5 @ u6)" using w w46 by (auto intro: within_append)
  have w26: "within d1 d6 (u2 @ u3 @ u4 @ u5 @ u6)" using w w36 by (auto intro: within_append)
  have "within 400 d6 ?us" using w w26 by (auto intro: within_append)
  then have order: "fire_order (?us @ [(d6 + 400, DSummary)]) = ?us @ [(d6 + 400, DSummary)]"
    by (rule within_fire_order)
  have run: "defend ls store =
       Inr (exec_defend_unit store (foldl (exec_defend_unit store) ?init ?us) (d6 + 400, DSummary))"
    using order by (simp add: defend_def plan)
  let ?st = "exec_defend_unit store (foldl (exec_defend_unit store) ?init ?us)
               (d6 + 400, DSummary)"
  have total: "actionsTotal ?st = length (filter counting_unit ?us)"
    by (simp add: foldl_exec_defend_actions)
  have post: "posture ?st = Some (compute_posture (actionsTotal ?st) store)"
    by simp
  have counting: "filter counting_unit ?us \<noteq> []"
    if av: "getToolsByRole ls [''av_remediate''] \<noteq> []" and mal: "hasMalware (defend_findings store)"
  proof -
    have "\<forall>t \<in> set (getToolsByRole ls [''av_remediate'']).
            counts_action Malware_Containment (te_key t)"
    proof
      fix t assume "t \<in> set (getToolsByRole ls [''av_remediate''])"
      from getToolsByRole_keys [OF this] show "counts_action Malware_Containment (te_key t)"
        by (simp add: role_tools_def TOOL_ROLES_def) blast
    qed
    from defend_phase_block_counting [OF b2 av _ this] mal
    have "filter counting_unit u2 \<noteq> []" by simp
    then show ?thesis by simp
  qed
  from counting total have "actionsTotal ?st \<noteq> 0"
    if "getToolsByRole ls [''av_remediate''] \<noteq> []" and "hasMalware (defend_findings store)"
    using that by simp
  with run post that show ?thesis by blast
qed


lemma av_tools_installed:
  "getInstalledTools ls \<noteq> [] \<Longrightarrow> getToolsByRole ls [''av_remediate''] \<noteq> []"
  by (simp add: getToolsByRole_all) (simp add: TOOLS_DATABASE_def role_tools_def TOOL_ROLES_def)

lemma clamav_defend:
  "defend storage_all_installed (Some clamav_scan_result) =
   Inr \<lparr>actionsTotal = 10,
        toolsEngaged = [''Elastic Stack (ELK)'', ''Splunk Enterprise'', ''SELinux'', ''AppArmor'',
                        ''ClamAV'', ''Rkhunter'', ''Chkrootkit'', ''Kaspersky Endpoint Security'',
                        ''Malwarebytes'', ''Windows Defender''],
        posture = Some ''INCIDENT RESPONSE ACTIVE''\<rparr>"
  by (simp add: defend_def activateSmartDefense_def all_installed_nonempty
      getToolsByRole_all [OF all_installed_nonempty] Let_def)
     (simp add: TOOLS_DATABASE_def role_tools_def TOOL_ROLES_def defend_phase_block_def
        hasScanData_def defend_findings_def clamav_scan_result_def clamav_finding_def
        hasNetworkThreat_def hasVulns_def hasMalware_def hasMemoryThreat_def
        hasComplianceGap_def hasIntegrityViolation_def fire_order_def compute_posture_def)

text \<open>
  Claim C6. A defend run that is not aborted ends with the posture NO DEFENSIVE TOOLS
  INSTALLED when it took no action; otherwise HARDENED (preventive) when the findings
  it used were empty; otherwise INCIDENT RESPONSE ACTIVE when the ScanResult holds a
  critical finding; otherwise HARDENED. The ScanResult is one whose counters agree with
  its findings, as every result a scan stores does. A run on a ScanResult with a
  critical finding of a \<^verbatim>\<open>malware_scan\<close> tool ends with INCIDENT RESPONSE ACTIVE.
\<close>

theorem defend_posture:
  assumes "defend ls store = Inr st"
    and "case store of None \<Rightarrow> True | Some r \<Rightarrow> counts_ok r"
  shows "posture st =
           Some (if actionsTotal st = 0 then ''NO DEFENSIVE TOOLS INSTALLED''
                 else if defend_findings store = [] then ''HARDENED (preventive)''
                 else if list_ex (\<lambda>f. f_level f = LCritical) (defend_findings store)
                      then ''INCIDENT RESPONSE ACTIVE''
                 else ''HARDENED'')
         \<and> (list_ex (\<lambda>f. f_key f \<in> set (role_tools ''malware_scan'') \<and> f_level f = LCritical)
               (defend_findings store)
            \<longrightarrow> posture st = Some ''INCIDENT RESPONSE ACTIVE'')"
proof -
  have inst: "getInstalledTools ls \<noteq> []"
    using assms(1) defend_no_tools [of ls store] by auto
  from defend_runs [OF inst, of store] assms(1)
  have post: "posture st = Some (compute_posture (actionsTotal st) store)"
    and act: "getToolsByRole ls [''av_remediate''] \<noteq> [] \<Longrightarrow>
              hasMalware (defend_findings store) \<Longrightarrow> actionsTotal st \<noteq> 0"
    by auto
  have cascade: "posture st =
           Some (if actionsTotal st = 0 then ''NO DEFENSIVE TOOLS INSTALLED''
                 else if defend_findings store = [] then ''HARDENED (preventive)''
                 else if list_ex (\<lambda>f. f_level f = LCritical) (defend_findings store)
                      then ''INCIDENT RESPONSE ACTIVE''
                 else ''HARDENED'')"
    unfolding post compute_posture_findings [OF assms(2)] by (rule refl)
  have "posture st = Some ''INCIDENT RESPONSE ACTIVE''"
    if mal: "list_ex (\<lambda>f. f_key f \<in> set (role_tools ''malware_scan'') \<and> f_level f = LCritical)
               (defend_findings store)"
  proof -
    from mal have "hasMalware (defend_findings store)"
      by (auto simp: hasMalware_roles list_ex_iff)
    with act av_tools_installed [OF inst] have "actionsTotal st \<noteq> 0" by simp
    moreover from mal have "defend_findings store \<noteq> []"
      by (auto simp: list_ex_iff)
    moreover from mal have "list_ex (\<lambda>f. f_level f = LCritical) (defend_findings store)"
      by (auto simp: list_ex_iff)
    ultimately show ?thesis unfolding cascade by simp
  qed
  with cascade show ?thesis by blast
qed

theorem defend_posture_witness:
  "defend storage_all_installed (Some clamav_scan_result) =
     Inr \<lparr>actionsTotal = 10,
          toolsEngaged = [''Elastic Stack (ELK)'', ''Splunk Enterprise'', ''SELinux'', ''AppArmor'',
                          ''ClamAV'', ''Rkhunter'', ''Chkrootkit'', ''Kaspersky Endpoint Security'',
                          ''Malwarebytes'', ''Windows Defender''],
          posture = Some ''INCIDENT RESPONSE ACTIVE''\<rparr>
   \<and> counts_ok clamav_scan_result
   \<and> list_ex (\<lambda>f. f_key f \<in> set (role_tools ''malware_scan'') \<and> f_level f = LCritical)
        (defend_findings (Some clamav_scan_result))"
proof -
  have ok: "case Some clamav_scan_result of None \<Rightarrow> True | Some r \<Rightarrow> counts_ok r"
    by (simp add: counts_ok_def clamav_scan_result_def clamav_finding_def)
  have mal: "list_ex (\<lambda>f. f_key f \<in> set (role_tools ''malware_scan'') \<and> f_level f = LCritical)
        (defend_findings (Some clamav_scan_result))"
    by (simp add: defend_findings_def hasScanData_def clamav_scan_result_def clamav_finding_def
        role_tools_def TOOL_ROLES_def)
  from defend_posture [OF clamav_defend ok] mal
  have "posture \<lparr>actionsTotal = 10,
          toolsEngaged = [''Elastic Stack (ELK)'', ''Splunk Enterprise'', ''SELinux'', ''AppArmor'',
                          ''ClamAV'', ''Rkhunter'', ''Chkrootkit'', ''Kaspersky Endpoint Security'',
                          ''Malwarebytes'', ''Windows Defender''],
          posture = Some ''INCIDENT RESPONSE ACTIVE''\<rparr> = Some ''INCIDENT RESPONSE ACTIVE''"
    by blast
  with clamav_defend ok mal show ?thesis by simp
qed

section \<open>Tool operations and the initialization flag\<close>

lemma getItem_setItem [simp]:
  "getItem (setItem k v ls) k' = (if k' = k then Some v else getItem ls k')"
  by (simp add: getItem_def setItem_def)

lemma getItem_removeItem [simp]:
  "getItem (removeItem k ls) k' = (if k' = k then None else getItem ls k')"
  by (simp add: getItem_def removeItem_def)

lemma installedTools_setItem [simp]:
  "ls_installedTools (setItem k v ls) = ls_installedTools ls"
  "ls_installedTools (removeItem k ls) = ls_installedTools ls"
  by (simp_all add: setItem_def removeItem_def)

lemma getItem_flag_update:
  "k \<noteq> ''kterInitialized'' \<Longrightarrow>
   getItem (ls\<lparr>ls_items := (ls_items ls)(''kterInitialized'' := v)\<rparr>) k = getItem ls k"
  by (simp add: getItem_def)

lemma getInstalledTools_flag_update:
  "getInstalledTools (ls\<lparr>ls_items := (ls_items ls)(''kterInitialized'' := v)\<rparr>) =
   getInstalledTools ls"
  by (rule getInstalledTools_cong) (simp add: getItem_flag_update)

lemma scan_cong:
  assumes "getInstalledTools ls' = getInstalledTools ls"
  shows "scan probe now rng ls' store = scan probe now rng ls store"
  by (simp add: scan_def scan_states_def performComprehensiveScan_cong [OF assms])

lemma defend_cong:
  assumes "getInstalledTools ls' = getInstalledTools ls"
  shows "defend ls' store = defend ls store"
  by (simp add: defend_def activateSmartDefense_cong [OF assms])

lemma installTool_item [simp]: "getItem (installTool n b ts ls) k = getItem ls k"
  by (simp add: installTool_def Let_def)

text \<open>
  Claim C1, as amended. No tool-management operation of the renderer reads the
  initialized flag: what \<^verbatim>\<open>installTool\<close> stores, what a scan does and returns and what a
  defend run does are the same whatever the \<^verbatim>\<open>kterInitialized\<close> item holds, and
  \<^verbatim>\<open>installTool\<close> leaves that item alone. The flag is acted on where the tool cards
  are rendered: the install button is disabled when the tool is incompatible or the flag
  is not set.
\<close>

theorem tool_operations_ignore_initialized:
  "ls_installedTools (installTool n b ts (ls\<lparr>ls_items := (ls_items ls)(''kterInitialized'' := v)\<rparr>))
     = ls_installedTools (installTool n b ts ls)
   \<and> getItem (installTool n b ts ls) ''kterInitialized'' = getItem ls ''kterInitialized''
   \<and> performComprehensiveScan now (ls\<lparr>ls_items := (ls_items ls)(''kterInitialized'' := v)\<rparr>) store
     = performComprehensiveScan now ls store
   \<and> scan probe now rng (ls\<lparr>ls_items := (ls_items ls)(''kterInitialized'' := v)\<rparr>) store
     = scan probe now rng ls store
   \<and> activateSmartDefense (ls\<lparr>ls_items := (ls_items ls)(''kterInitialized'' := v)\<rparr>) store
     = activateSmartDefense ls store
   \<and> defend (ls\<lparr>ls_items := (ls_items ls)(''kterInitialized'' := v)\<rparr>) store = defend ls store
   \<and> isButtonDisabled incompatible (isInitialized ls) = (incompatible \<or> \<not> isInitialized ls)"
proof -
  note same = getInstalledTools_flag_update [of ls v]
  have "ls_installedTools (installTool n b ts (ls\<lparr>ls_items := (ls_items ls)(''kterInitialized'' := v)\<rparr>))
     = ls_installedTools (installTool n b ts ls)"
    by (simp add: installTool_def setToolInstalled_def same Let_def)
  then show ?thesis
    using performComprehensiveScan_cong [OF same, of now store] scan_cong [OF same, of probe now rng store]
      activateSmartDefense_cong [OF same, of store] defend_cong [OF same, of store]
    by (simp add: isButtonDisabled_def)
qed

text \<open>
  Without the amendment the statement fails: in a fresh storage, where the flag is not
  set, installing a tool with the executor reporting success records the tool, and a
  scan of a storage without the flag runs to its end and fills the Result Store.
\<close>

theorem install_and_scan_uninitialized_counterexample:
  "\<not> isInitialized storage_fresh
   \<and> ls_installedTools storage_fresh = None
   \<and> ls_installedTools (installTool ''ClamAV'' True ''2026-01-01T00:00:00.000Z'' storage_fresh)
       = Some [(''ClamAV'', InstalledAt ''2026-01-01T00:00:00.000Z'')]
   \<and> \<not> isInitialized storage_all_installed
   \<and> scan clamav_probe 0 () storage_all_installed None
       = Inr \<lparr>run_results = clamav_scan_result, run_store = Some clamav_scan_result,
              run_rng = ()\<rparr>"
proof -
  have none: "getInstalledTools storage_fresh = []"
    by (rule getInstalledTools_none) (simp add: storage_fresh_def getItem_def)
  have "ls_installedTools (installTool ''ClamAV'' True ''2026-01-01T00:00:00.000Z'' storage_fresh)
       = Some [(''ClamAV'', InstalledAt ''2026-01-01T00:00:00.000Z'')]"
    by (simp add: installTool_def setToolInstalled_def none)
  moreover have "\<not> isInitialized storage_fresh" "ls_installedTools storage_fresh = None"
    "\<not> isInitialized storage_all_installed"
    by (simp_all add: isInitialized_def getItem_def storage_fresh_def storage_all_installed_def)
  ultimately show ?thesis
    using clamav_scan [of None] by simp
qed

section \<open>Activation, initialization and the install-state handler\<close>

lemma setToolInstalled_items [simp]: "ls_items (setToolInstalled n b ts ls) = ls_items ls"
  by (simp add: setToolInstalled_def Let_def)

lemma getItem_sync [simp]:
  "getItem (foldl (\<lambda>l displayName. setToolInstalled displayName True t l) ls ns) k = getItem ls k"
  by (induction ns arbitrary: ls) simp_all


lemma isUpgrade_after_license:
  "isUpgrade result (setItem ''kterActivated'' a (setItem ''kterLicenseType'' t
     (setItem ''kterLicenseKey'' k ls))) = isUpgrade result ls"
  by (simp add: isUpgrade_def isInitialized_def)








text \<open>
  Claim C9, as amended. When \<^verbatim>\<open>install_state.json\<close> is absent the handler does not
  raise: it answers with the error noted and with what the flag file says. Without
  the flag file the answer has \<^verbatim>\<open>success: false\<close> and a \<^verbatim>\<open>null\<close> state, which
  a caller reads as not initialized; with the flag file it has \<^verbatim>\<open>success: true\<close> and
  the state \<^verbatim>\<open>{initialized: true}\<close>.
\<close>

theorem read_install_state_without_state_file:
  "read_install_state \<lparr>initFlag = flag, stateFile = Missing\<rparr> =
     \<lparr>rr_success = flag,
      rr_state = (if flag then Some \<lparr>is_fields = [], is_initialized = True\<rparr> else None),
      rr_error = Some ENOENT\<rparr>
   \<and> reply_initialized (read_install_state \<lparr>initFlag = flag, stateFile = Missing\<rparr>) = flag"
  by (simp add: read_install_state_def reply_initialized_def)

text \<open>
  Without the amendment the statement fails: in a directory that holds the flag file
  written by \<^verbatim>\<open>initializeKjer()\<close> and no \<^verbatim>\<open>install_state.json\<close>, the handler
  answers initialized.
\<close>

theorem read_install_state_flag_only_counterexample:
  "stateFile (touch_initialized dir_before_install) = Missing
   \<and> read_install_state (touch_initialized dir_before_install) =
       \<lparr>rr_success = True, rr_state = Some \<lparr>is_fields = [], is_initialized = True\<rparr>,
        rr_error = Some ENOENT\<rparr>
   \<and> reply_initialized (read_install_state (touch_initialized dir_before_install))"
  by (simp add: read_install_state_def reply_initialized_def touch_initialized_def
      dir_before_install_def)

end
